theory Spec2Isabelle
  imports Complex_Main "HOL-Library.AList" "HOL-Library.Log_Nat"
begin

section \<open>Shared vocabulary\<close>

text \<open>
  Wall-clock readings (\<open>Date.now()\<close>, \<open>new Date()\<close>) are milliseconds since the epoch and
  are passed to every operation as an explicit argument. Identifiers drawn by
  \<open>generateId()\<close> (a random UUID) are passed in the same way. JavaScript numbers that
  carry measurements are finite and modelled as reals; counters are naturals. The
  arithmetic of the severity ladder and of the Learning Agent is the double-precision
  arithmetic of the code, defined in the section on JavaScript numbers.
\<close>

type_synonym time = int

datatype severity = CRITICAL | HIGH | MEDIUM | LOW | INFO

text \<open>\<open>a || b\<close> on a possibly missing string: the empty string is falsy as well.\<close>

definition str_or :: "string option \<Rightarrow> string \<Rightarrow> string" where
  "str_or a b = (case a of None \<Rightarrow> b | Some s \<Rightarrow> if s = [] then b else s)"

text \<open>Truthiness of a possibly missing number: \<open>undefined\<close> and \<open>0\<close> are falsy.\<close>

definition truthy_num :: "real option \<Rightarrow> bool" where
  "truthy_num a = (case a of None \<Rightarrow> False | Some v \<Rightarrow> v \<noteq> 0)"

section \<open>JavaScript numbers\<close>

text \<open>
  A Number is an IEEE 754 double: a finite value, one of the two infinities, or
  \<open>NaN\<close>. A finite value is kept as the real it denotes; the two zeros are one value.
  An arithmetic operation gives the exact result rounded to the nearest double, ties to
  the even significand.
\<close>

datatype number = Finite real | PosInfinity | NegInfinity | NaN

text \<open>The binade of a positive real \<open>x\<close>: the \<open>e\<close> with \<open>2^e \<le> x < 2^(e+1)\<close>
  (\<open>bitlen n\<close> is the number of binary digits of \<open>n\<close>).\<close>

definition binade :: "real \<Rightarrow> int" where
  "binade x = (if x \<ge> 1 then bitlen \<lfloor>x\<rfloor> - 1 else - bitlen (\<lceil>1 / x\<rceil> - 1))"

text \<open>The nearest integer, a tie going to the even one.\<close>

definition half_even :: "real \<Rightarrow> int" where
  "half_even y =
     (let n = \<lfloor>y\<rfloor>; f = y - of_int n
      in if f < 1 / 2 then n else if f > 1 / 2 then n + 1 else if even n then n else n + 1)"

text \<open>
  Rounding a real to a double. Doubles in the binade \<open>e\<close> are the multiples of
  \<open>2^(e-52)\<close>; below \<open>2^(-1022)\<close> (the subnormal range) they are the multiples of
  \<open>2^(-1074)\<close>; a result of magnitude \<open>2^1024\<close> or more overflows to an infinity.
\<close>

definition round64 :: "real \<Rightarrow> number" where
  "round64 x =
     (if x = 0 then Finite 0
      else
        (let e = max (binade \<bar>x\<bar>) (- 1022);
             u = 2 powi (e - 52);
             r = of_int (half_even (x / u)) * u
         in if \<bar>r\<bar> \<ge> 2 ^ 1024 then (if x > 0 then PosInfinity else NegInfinity)
            else Finite r))"

definition infinity :: "bool \<Rightarrow> number" where
  "infinity positive = (if positive then PosInfinity else NegInfinity)"

text \<open>\<open>a + b\<close>, \<open>a * b\<close> and \<open>a / b\<close>. A zero divisor is \<open>+0\<close>: the code divides only by
  counts and by positive constants.\<close>

fun jsadd :: "number \<Rightarrow> number \<Rightarrow> number" where
  "jsadd (Finite a) (Finite b) = round64 (a + b)"
| "jsadd NaN b = NaN"
| "jsadd a NaN = NaN"
| "jsadd PosInfinity NegInfinity = NaN"
| "jsadd NegInfinity PosInfinity = NaN"
| "jsadd PosInfinity b = PosInfinity"
| "jsadd NegInfinity b = NegInfinity"
| "jsadd a PosInfinity = PosInfinity"
| "jsadd a NegInfinity = NegInfinity"

fun jsmul :: "number \<Rightarrow> number \<Rightarrow> number" where
  "jsmul (Finite a) (Finite b) = round64 (a * b)"
| "jsmul NaN b = NaN"
| "jsmul a NaN = NaN"
| "jsmul (Finite a) PosInfinity = (if a = 0 then NaN else infinity (a > 0))"
| "jsmul (Finite a) NegInfinity = (if a = 0 then NaN else infinity (a < 0))"
| "jsmul PosInfinity (Finite b) = (if b = 0 then NaN else infinity (b > 0))"
| "jsmul NegInfinity (Finite b) = (if b = 0 then NaN else infinity (b < 0))"
| "jsmul PosInfinity PosInfinity = PosInfinity"
| "jsmul PosInfinity NegInfinity = NegInfinity"
| "jsmul NegInfinity PosInfinity = NegInfinity"
| "jsmul NegInfinity NegInfinity = PosInfinity"

fun jsdiv :: "number \<Rightarrow> number \<Rightarrow> number" where
  "jsdiv (Finite a) (Finite b) =
     (if b = 0 then (if a = 0 then NaN else infinity (a > 0)) else round64 (a / b))"
| "jsdiv NaN b = NaN"
| "jsdiv a NaN = NaN"
| "jsdiv (Finite a) PosInfinity = Finite 0"
| "jsdiv (Finite a) NegInfinity = Finite 0"
| "jsdiv PosInfinity (Finite b) = infinity (b \<ge> 0)"
| "jsdiv NegInfinity (Finite b) = infinity (b < 0)"
| "jsdiv PosInfinity b = NaN"
| "jsdiv NegInfinity b = NaN"

text \<open>\<open>Math.round\<close>: the nearest integer, a half rounded up.\<close>

fun math_round :: "number \<Rightarrow> number" where
  "math_round (Finite x) = Finite (of_int \<lfloor>x + 1 / 2\<rfloor>)"
| "math_round n = n"

text \<open>\<open>a < b\<close>, \<open>a > b\<close> and \<open>a >= b\<close>: every comparison with \<open>NaN\<close> is false.\<close>

fun num_less :: "number \<Rightarrow> number \<Rightarrow> bool" where
  "num_less (Finite a) (Finite b) = (a < b)"
| "num_less NaN b = False"
| "num_less a NaN = False"
| "num_less a NegInfinity = False"
| "num_less PosInfinity b = False"
| "num_less NegInfinity b = True"
| "num_less a PosInfinity = True"

definition num_gt :: "number \<Rightarrow> number \<Rightarrow> bool" where
  "num_gt a b = num_less b a"

definition num_ge :: "number \<Rightarrow> number \<Rightarrow> bool" where
  "num_ge a b = (a \<noteq> NaN \<and> b \<noteq> NaN \<and> \<not> num_less a b)"

text \<open>Truthiness of a Number: \<open>0\<close> and \<open>NaN\<close> are falsy.\<close>

definition truthy_number :: "number \<Rightarrow> bool" where
  "truthy_number a = (a \<noteq> Finite 0 \<and> a \<noteq> NaN)"

section \<open>Alert Manager\<close>

subsection \<open>Data\<close>

text \<open>The \<open>data\<close> argument of \<open>AlertManager.create\<close>.\<close>

record alert_data =
  d_component :: "string option"
  d_message :: "string option"
  d_severity :: "severity option"
  d_threshold :: "real option"
  d_value :: "real option"
  d_metadata :: "(string \<times> string) list option"

record alert =
  a_id :: string
  a_type :: string
  a_component :: string
  a_message :: string
  a_severity :: severity
  thresholdValue :: "real option"
  actualValue :: "real option"
  a_metadata :: "(string \<times> string) list"
  acknowledged :: bool
  acknowledgedBy :: "string option"
  acknowledgedAt :: "time option"
  resolved :: bool
  autoResolved :: bool
  resolution :: "string option"
  resolvedAt :: "time option"
  createdAt :: time
  updatedAt :: time
  a_count :: "nat option"
  lastOccurrence :: "time option"

subsection \<open>Severity classification\<close>

definition criticalTypes :: "string list" where
  "criticalTypes = [''API_DOWN'', ''DB_CONNECTION_ERROR'', ''SECURITY_THREAT'', ''SQL_INJECTION'']"

definition highTypes :: "string list" where
  "highTypes = [''API_ERROR_RATE'', ''DB_POOL_EXHAUSTED'', ''BRUTE_FORCE'', ''EMAIL_PROVIDER_DOWN'']"

text \<open>The threshold-exceedance ladder inside \<open>determineSeverity\<close>, which falls through to
  the final \<open>return severity.LOW\<close>.\<close>

definition ratioSeverity :: "number \<Rightarrow> severity" where
  "ratioSeverity ratio =
     (if num_gt ratio (Finite 2) then CRITICAL
      else if num_gt ratio (Finite 1.5) then HIGH
      else if num_gt ratio (Finite 1) then MEDIUM
      else LOW)"

definition determineSeverity :: "string \<Rightarrow> alert_data \<Rightarrow> severity" where
  "determineSeverity alertType d =
     (if alertType \<in> set criticalTypes then CRITICAL
      else if alertType \<in> set highTypes then HIGH
      else if truthy_num (d_value d) \<and> truthy_num (d_threshold d) then
        ratioSeverity (jsdiv (Finite (the (d_value d))) (Finite (the (d_threshold d))))
      else LOW)"

text \<open>The severity \<open>create\<close> assigns: \<open>data.severity || this.determineSeverity(alertType, data)\<close>.\<close>

definition assignedSeverity :: "string \<Rightarrow> alert_data \<Rightarrow> severity" where
  "assignedSeverity alertType d =
     (case d_severity d of Some s \<Rightarrow> s | None \<Rightarrow> determineSeverity alertType d)"

section \<open>Event Bus\<close>

text \<open>
  The bus in memory-only mode (\<open>initialize()\<close> without a Redis client). A payload is an
  object with an optional \<open>source\<close> property; each channel's payload extends it.
  \<open>emit\<close> is Node's \<open>EventEmitter.emit\<close>: the listeners registered for the channel are
  called synchronously, in registration order, and an exception thrown by a listener
  propagates out of \<open>emit\<close>, so the listeners after it are not called. A listener
  is a function of the event, the clock reading of the dispatch and the state it acts
  on; it returns \<open>Some msg\<close> when it throws. An \<open>async\<close> listener never throws
  synchronously: its failure is a rejected promise that \<open>emit\<close> does not look at.
\<close>

record payload =
  source :: "string option"

record 'a event =
  e_id :: string
  e_channel :: string
  e_data :: "'a payload_scheme"
  e_timestamp :: time
  e_source :: string

type_synonym ('a, 's) handler = "'a event \<Rightarrow> time \<Rightarrow> 's \<Rightarrow> string option \<times> 's"

record subscription =
  s_channel :: string
  s_agentName :: string
  s_createdAt :: time

record ('a, 's) event_bus =
  listeners :: "(string \<times> ('a, 's) handler) list"
  subscriptions :: "(string \<times> subscription) list"
  eventHistory :: "'a event list"
  maxHistorySize :: nat

definition newEventBus :: "('a, 's) event_bus" where
  "newEventBus = \<lparr>listeners = [], subscriptions = [], eventHistory = [], maxHistorySize = 1000\<rparr>"

fun call_listeners :: "('a, 's) handler list \<Rightarrow> 'a event \<Rightarrow> time \<Rightarrow> 's \<Rightarrow> string option \<times> 's" where
  "call_listeners [] ev now s = (None, s)"
| "call_listeners (h # hs) ev now s =
     (case h ev now s of
        (Some err, s') \<Rightarrow> (Some err, s')
      | (None, s') \<Rightarrow> call_listeners hs ev now s')"

definition emit :: "('a, 's) event_bus \<Rightarrow> string \<Rightarrow> 'a event \<Rightarrow> time \<Rightarrow> 's \<Rightarrow> string option \<times> 's" where
  "emit bus channel ev now s =
     call_listeners (map snd (filter (\<lambda>l. fst l = channel) (listeners bus))) ev now s"

text \<open>\<open>subscribe(channel, handler, agentName)\<close>; \<open>subscriptionId\<close> is the identifier drawn.\<close>

definition subscribe ::
  "('a, 's) event_bus \<Rightarrow> string \<Rightarrow> time \<Rightarrow> string \<Rightarrow> ('a, 's) handler \<Rightarrow> string \<Rightarrow>
   string \<times> ('a, 's) event_bus" where
  "subscribe bus subscriptionId now channel h agentName =
     (subscriptionId,
      bus\<lparr>subscriptions := AList.update subscriptionId
              \<lparr>s_channel = channel, s_agentName = agentName, s_createdAt = now\<rparr> (subscriptions bus),
          listeners := listeners bus @ [(channel, h)]\<rparr>)"

text \<open>
  \<open>publish(channel, data)\<close>: the event is appended to the bounded history and emitted.
  The result is \<open>Inl msg\<close> when a listener threw (the promise \<open>publish\<close> returns is
  rejected), \<open>Inr event\<close> otherwise.
\<close>

definition publish ::
  "('a, 's) event_bus \<Rightarrow> string \<Rightarrow> time \<Rightarrow> string \<Rightarrow> 'a payload_scheme \<Rightarrow> 's \<Rightarrow>
   (string + 'a event) \<times> ('a, 's) event_bus \<times> 's" where
  "publish bus eventId now channel dat s =
     (let ev = \<lparr>e_id = eventId, e_channel = channel, e_data = dat, e_timestamp = now,
                e_source = str_or (source dat) ''unknown''\<rparr>;
          h = eventHistory bus @ [ev];
          h = (if length h > maxHistorySize bus then tl h else h);
          bus' = bus\<lparr>eventHistory := h\<rparr>
      in case emit bus' channel ev now s of
           (Some err, s') \<Rightarrow> (Inl err, bus', s')
         | (None, s') \<Rightarrow> (Inr ev, bus', s'))"

text \<open>Which listeners an event reached: a listener that appends its name to the state,
  then returns or throws.\<close>

definition logging_listener :: "string \<Rightarrow> string option \<Rightarrow> ('a, string list) handler" where
  "logging_listener name throws = (\<lambda>ev now log. (throws, log @ [name]))"

section \<open>Alert Manager operations\<close>

text \<open>
  \<open>alerts\<close> is the \<open>Map\<close> from alert id to alert, in insertion order. \<open>db\<close> is
  \<open>None\<close> when no database was given to \<open>initialize\<close>; otherwise it lists the calls
  issued to \<open>db.systemAlert\<close> (a failing call is caught and logged by the source, so it
  changes nothing else). Objects are shared by reference in the source: the alert in
  the store, in the published event and in the notification queue is one object. The
  model keeps the store as the owner; an operation returns the alert as the store
  holds it when the operation ends.
\<close>

datatype db_call =
    DbCreate alert
  | DbAcknowledge string "string option"
  | DbResolve string bool time

record notification =
  n_alert :: alert
  attempts :: nat
  queuedAt :: time

record alert_manager =
  alerts :: "(string \<times> alert) list"
  db :: "db_call list option"
  notificationQueue :: "notification list"

definition newAlertManager :: alert_manager where
  "newAlertManager = \<lparr>alerts = [], db = None, notificationQueue = []\<rparr>"

text \<open>The payload \<open>create\<close> publishes on the alert channel: \<open>{ source, alert }\<close>.\<close>

record alert_payload = payload +
  p_alert :: alert

text \<open>\<open>throw new Error(`Alert ${alertId} not found`)\<close>\<close>

datatype am_error = AlertNotFound string

definition db_log :: "alert_manager \<Rightarrow> db_call \<Rightarrow> alert_manager" where
  "db_log am c = (case db am of None \<Rightarrow> am | Some l \<Rightarrow> am\<lparr>db := Some (l @ [c])\<rparr>)"

text \<open>
  \<open>findRelatedAlert(alertData)\<close> reads \<open>alertData.type\<close> and \<open>alertData.component\<close>;
  either may be \<open>undefined\<close>, which equals no stored alert's string.
\<close>

definition findRelatedAlert :: "alert_manager \<Rightarrow> string option \<Rightarrow> string option \<Rightarrow> alert option" where
  "findRelatedAlert am ty cmpt =
     find (\<lambda>a. Some (a_type a) = ty \<and> Some (a_component a) = cmpt \<and> \<not> resolved a)
          (map snd (alerts am))"

text \<open>\<open>processAlert(alertData)\<close>: the state after it, and the existing alert it updated
  (\<open>None\<close> when it returns \<open>alertData\<close> itself).\<close>

definition processAlert ::
  "alert_manager \<Rightarrow> time \<Rightarrow> string option \<Rightarrow> string option \<Rightarrow> alert option \<times> alert_manager" where
  "processAlert am now ty cmpt =
     (case findRelatedAlert am ty cmpt of
        None \<Rightarrow> (None, am)
      | Some existingAlert \<Rightarrow>
          if resolved existingAlert then (None, am)
          else
            (let c = (case a_count existingAlert of None \<Rightarrow> 1 | Some n \<Rightarrow> if n = 0 then 1 else n);
                 updated = existingAlert\<lparr>a_count := Some (c + 1), lastOccurrence := Some now,
                                          updatedAt := now\<rparr>
             in (Some updated, am\<lparr>alerts := AList.update (a_id existingAlert) updated (alerts am)\<rparr>)))"

text \<open>
  \<open>handleIncomingAlert(event)\<close> passes \<open>event.data\<close> to \<open>processAlert\<close>. On the alert
  channel \<open>event.data\<close> is the envelope \<open>{ source, alert }\<close>, which has no \<open>type\<close> and
  no \<open>component\<close> property of its own: both reads give \<open>undefined\<close>.
\<close>

definition envelope_type :: "alert_payload \<Rightarrow> string option" where
  "envelope_type p = None"

definition envelope_component :: "alert_payload \<Rightarrow> string option" where
  "envelope_component p = None"

definition handleIncomingAlert :: "(\<lparr>p_alert :: alert\<rparr>, alert_manager) handler" where
  "handleIncomingAlert ev now am =
     (None, snd (processAlert am now (envelope_type (e_data ev)) (envelope_component (e_data ev))))"

definition queueNotification :: "alert_manager \<Rightarrow> alert \<Rightarrow> time \<Rightarrow> alert_manager" where
  "queueNotification am a now =
     am\<lparr>notificationQueue := notificationQueue am @ [\<lparr>n_alert = a, attempts = 0, queuedAt = now\<rparr>]\<rparr>"

text \<open>
  \<open>create(alertType, data)\<close> with the identifiers it draws for the alert and for the
  event. It stores the alert, writes it to the database, publishes it on the alert
  channel of the bus (whose listeners act on the manager's state) and queues the
  notification. When a listener throws, \<open>await eventBus.publish\<close> throws and the rest
  of \<open>create\<close> is skipped.
\<close>

definition create ::
  "(\<lparr>p_alert :: alert\<rparr>, alert_manager) event_bus \<Rightarrow> alert_manager \<Rightarrow> string \<Rightarrow> string \<Rightarrow> time \<Rightarrow>
   string \<Rightarrow> alert_data \<Rightarrow>
   (string + alert) \<times> (\<lparr>p_alert :: alert\<rparr>, alert_manager) event_bus \<times> alert_manager" where
  "create bus am newId eventId now alertType d =
     (let a = \<lparr>a_id = newId, a_type = alertType,
                a_component = str_or (d_component d) ''system'',
                a_message = str_or (d_message d) (''Alert: '' @ alertType),
                a_severity = assignedSeverity alertType d,
                thresholdValue = d_threshold d, actualValue = d_value d,
                a_metadata = (case d_metadata d of None \<Rightarrow> [] | Some m \<Rightarrow> m),
                acknowledged = False, acknowledgedBy = None, acknowledgedAt = None,
                resolved = False, autoResolved = False, resolution = None, resolvedAt = None,
                createdAt = now, updatedAt = now, a_count = None, lastOccurrence = None\<rparr>;
          am1 = am\<lparr>alerts := AList.update newId a (alerts am)\<rparr>;
          am2 = db_log am1 (DbCreate a)
      in case publish bus eventId now ''alert'' \<lparr>source = Some ''AlertManager'', p_alert = a\<rparr> am2 of
           (Inl err, bus', am3) \<Rightarrow> (Inl err, bus', am3)
         | (Inr ev, bus', am3) \<Rightarrow>
             (let stored = (case map_of (alerts am3) newId of None \<Rightarrow> a | Some a' \<Rightarrow> a')
              in (Inr stored, bus', queueNotification am3 stored now)))"

definition acknowledge ::
  "alert_manager \<Rightarrow> time \<Rightarrow> string \<Rightarrow> string option \<Rightarrow> am_error + (alert \<times> alert_manager)" where
  "acknowledge am now alertId userId =
     (case map_of (alerts am) alertId of
        None \<Rightarrow> Inl (AlertNotFound alertId)
      | Some a \<Rightarrow>
          (let a' = a\<lparr>acknowledged := True, acknowledgedBy := userId,
                       acknowledgedAt := Some now, updatedAt := now\<rparr>;
               am' = am\<lparr>alerts := AList.update alertId a' (alerts am)\<rparr>
           in Inr (a', db_log am' (DbAcknowledge alertId userId))))"

text \<open>The \<open>options\<close> of \<open>resolve\<close>, with the defaults \<open>autoResolved = false\<close> and
  \<open>resolution = ''\<close> of its destructuring.\<close>

record resolve_options =
  o_autoResolved :: "bool option"
  o_resolution :: "string option"

definition resolve ::
  "alert_manager \<Rightarrow> time \<Rightarrow> string \<Rightarrow> resolve_options \<Rightarrow> am_error + (alert \<times> alert_manager)" where
  "resolve am now alertId opts =
     (let autoRes = (case o_autoResolved opts of None \<Rightarrow> False | Some b \<Rightarrow> b);
          res = (case o_resolution opts of None \<Rightarrow> '''' | Some r \<Rightarrow> r)
      in case map_of (alerts am) alertId of
           None \<Rightarrow> Inl (AlertNotFound alertId)
         | Some a \<Rightarrow>
             (let a' = a\<lparr>resolved := True, autoResolved := autoRes, resolution := Some res,
                          resolvedAt := Some now, updatedAt := now\<rparr>;
                  am' = am\<lparr>alerts := AList.update alertId a' (alerts am)\<rparr>
              in Inr (a', db_log am' (DbResolve alertId autoRes now))))"

text \<open>The bus after \<open>AlertManager.initialize\<close>: the manager listens on the alert channel.\<close>

definition am_bus :: "(\<lparr>p_alert :: alert\<rparr>, alert_manager) event_bus" where
  "am_bus = snd (subscribe newEventBus ''sub-1'' 0 ''alert'' handleIncomingAlert ''AlertManager'')"

text \<open>The alerts of the store that are unresolved and have the given type and component.\<close>

definition unresolved_of :: "alert_manager \<Rightarrow> string \<Rightarrow> string \<Rightarrow> alert list" where
  "unresolved_of am ty cmpt =
     filter (\<lambda>a. a_type a = ty \<and> a_component a = cmpt \<and> \<not> resolved a) (map snd (alerts am))"

text \<open>A sequence of management calls, for stating scenarios: the outcome of each call
  and the state after all of them.\<close>

datatype am_call =
    Create string string time string alert_data
  | Acknowledge time string "string option"
  | Resolve time string resolve_options

datatype am_outcome = Failed string | NotFound string | Done alert

fun am_step ::
  "(\<lparr>p_alert :: alert\<rparr>, alert_manager) event_bus \<times> alert_manager \<Rightarrow> am_call \<Rightarrow>
   am_outcome \<times> (\<lparr>p_alert :: alert\<rparr>, alert_manager) event_bus \<times> alert_manager" where
  "am_step (bus, am) (Create newId eventId now alertType d) =
     (case create bus am newId eventId now alertType d of
        (Inl err, bus', am') \<Rightarrow> (Failed err, bus', am')
      | (Inr a, bus', am') \<Rightarrow> (Done a, bus', am'))"
| "am_step (bus, am) (Acknowledge now alertId userId) =
     (case acknowledge am now alertId userId of
        Inl (AlertNotFound i) \<Rightarrow> (NotFound i, bus, am)
      | Inr (a, am') \<Rightarrow> (Done a, bus, am'))"
| "am_step (bus, am) (Resolve now alertId opts) =
     (case resolve am now alertId opts of
        Inl (AlertNotFound i) \<Rightarrow> (NotFound i, bus, am)
      | Inr (a, am') \<Rightarrow> (Done a, bus, am'))"

fun am_run ::
  "(\<lparr>p_alert :: alert\<rparr>, alert_manager) event_bus \<times> alert_manager \<Rightarrow> am_call list \<Rightarrow>
   am_outcome list \<times> alert_manager" where
  "am_run (bus, am) [] = ([], am)"
| "am_run (bus, am) (c # cs) =
     (case am_step (bus, am) c of
        (r, bus', am') \<Rightarrow> (case am_run (bus', am') cs of (rs, am'') \<Rightarrow> (r # rs, am'')))"

section \<open>Rate limiter\<close>

text \<open>
  \<open>RateLimiter\<close> of \<open>utils/helpers.js\<close>: per key, the timestamps of the requests it let
  through. \<open>maxRequests\<close> is a count; the first argument of \<open>isAllowed\<close> is the reading
  of \<open>Date.now()\<close> inside the call.
\<close>

record rate_limiter =
  maxRequests :: nat
  windowMs :: int
  requests :: "string \<rightharpoonup> time list"

definition newRateLimiter :: "nat \<Rightarrow> int \<Rightarrow> rate_limiter" where
  "newRateLimiter m w = \<lparr>maxRequests = m, windowMs = w, requests = Map.empty\<rparr>"

text \<open>\<open>this.requests.get(key) || []\<close>\<close>

definition keyRequestsOf :: "rate_limiter \<Rightarrow> string \<Rightarrow> time list" where
  "keyRequestsOf rl key = (case requests rl key of None \<Rightarrow> [] | Some ts \<Rightarrow> ts)"

definition isAllowed :: "rate_limiter \<Rightarrow> time \<Rightarrow> string \<Rightarrow> bool \<times> rate_limiter" where
  "isAllowed rl now key =
     (let windowStart = now - windowMs rl;
          keyRequests = filter (\<lambda>t. t > windowStart) (keyRequestsOf rl key)
      in if length keyRequests \<ge> maxRequests rl then (False, rl)
         else (True, rl\<lparr>requests := (requests rl)(key \<mapsto> keyRequests @ [now])\<rparr>))"

definition reset :: "rate_limiter \<Rightarrow> string \<Rightarrow> rate_limiter" where
  "reset rl key = rl\<lparr>requests := (requests rl)(key := None)\<rparr>"

definition cleanup :: "rate_limiter \<Rightarrow> time \<Rightarrow> rate_limiter" where
  "cleanup rl now =
     (let windowStart = now - windowMs rl
      in rl\<lparr>requests := (\<lambda>key. case requests rl key of
                 None \<Rightarrow> None
               | Some rs \<Rightarrow> (let validRequests = filter (\<lambda>t. t > windowStart) rs
                            in if validRequests = [] then None else Some validRequests))\<rparr>)"

text \<open>
  A history of calls on one limiter, each with the clock reading it sees.
  \<open>grants rl k ops\<close> lists the clock readings at which \<open>isAllowed(k)\<close> returned \<open>true\<close>
  in that history, and \<open>run_ops\<close> is the limiter after it.
\<close>

datatype limiter_op = IsAllowed time string | Cleanup time

fun op_time :: "limiter_op \<Rightarrow> time" where
  "op_time (IsAllowed now key) = now"
| "op_time (Cleanup now) = now"

fun apply_op :: "rate_limiter \<Rightarrow> limiter_op \<Rightarrow> rate_limiter" where
  "apply_op rl (IsAllowed now key) = snd (isAllowed rl now key)"
| "apply_op rl (Cleanup now) = cleanup rl now"

fun granted_now :: "rate_limiter \<Rightarrow> string \<Rightarrow> limiter_op \<Rightarrow> time list" where
  "granted_now rl k (IsAllowed now key) =
     (if fst (isAllowed rl now key) \<and> key = k then [now] else [])"
| "granted_now rl k (Cleanup now) = []"

fun grants :: "rate_limiter \<Rightarrow> string \<Rightarrow> limiter_op list \<Rightarrow> time list" where
  "grants rl k [] = []"
| "grants rl k (c # cs) = granted_now rl k c @ grants (apply_op rl c) k cs"

fun run_ops :: "rate_limiter \<Rightarrow> limiter_op list \<Rightarrow> rate_limiter" where
  "run_ops rl [] = rl"
| "run_ops rl (c # cs) = run_ops (apply_op rl c) cs"

text \<open>The number of readings in the window of \<open>w\<close> milliseconds that ends at \<open>x\<close>,
  and the number of readings later than \<open>x - w\<close>.\<close>

definition in_window :: "int \<Rightarrow> time \<Rightarrow> time list \<Rightarrow> nat" where
  "in_window w x ts = length (filter (\<lambda>t. x - w < t \<and> t \<le> x) ts)"

definition later :: "int \<Rightarrow> time \<Rightarrow> time list \<Rightarrow> nat" where
  "later w x ts = length (filter (\<lambda>t. x - w < t) ts)"

text \<open>What the stored timestamps of key \<open>k\<close> keep of its grant history \<open>G\<close>, all of it no
  later than \<open>lo\<close>: from \<open>lo\<close> on, a window sees the same number of both.\<close>

definition limiter_inv :: "rate_limiter \<Rightarrow> string \<Rightarrow> time list \<Rightarrow> time \<Rightarrow> bool" where
  "limiter_inv rl k G lo \<longleftrightarrow>
     (\<forall>t \<in> set G. t \<le> lo) \<and>
     (\<forall>x \<ge> lo. later (windowMs rl) x G = later (windowMs rl) x (keyRequestsOf rl k)) \<and>
     (\<forall>x. in_window (windowMs rl) x G \<le> maxRequests rl)"

text \<open>The data of a slow-query alert, as the Monitor Agent passes it to \<open>create\<close>.\<close>

definition db_slow_data :: alert_data where
  "db_slow_data = \<lparr>d_component = Some ''database'', d_message = None, d_severity = None,
      d_threshold = Some 100, d_value = Some 600, d_metadata = None\<rparr>"

section \<open>Diagnostic Agent\<close>

text \<open>
  A diagnosis as the agents pass it on. \<open>dg_alertType\<close> and \<open>dg_component\<close> are the
  properties \<open>alertType\<close> and \<open>component\<close> that the Learning Agent reads; the
  diagnoses built by \<open>ruleDiagnose\<close> do not set them.
\<close>

record diagnosis =
  dg_alertType :: "string option"
  dg_component :: "string option"
  rootCause :: string
  dg_severity :: severity
  confidence :: real
  suggestedFix :: string
  fixType :: string
  autoFixable :: bool
  estimatedFixTime :: string
  affectedUsers :: nat
  preventionAdvice :: string
  diagnosedBy :: string

text \<open>What an agent hands to the other components while it handles one event, in the
  order of the calls.\<close>

datatype check_status = Healthy | Degraded | Down

datatype effect =
    CreateAlert string alert_data
  | RecordMetric string real string "(string \<times> string) list"
  | SetLastCheck string check_status
  | PublishDiagnosis string diagnosis
  | PublishRepairRequest string diagnosis
  | PublishAgentError string string

record diagnostic_agent =
  dg_running :: bool
  pendingDiagnoses :: "string set"

text \<open>\<open>escalate(alert, diagnosis)\<close>: the alert it asks the Alert Manager to create.\<close>

definition escalate :: "alert \<Rightarrow> diagnosis \<Rightarrow> effect" where
  "escalate a d =
     CreateAlert ''ESCALATION''
       \<lparr>d_component = Some ''diagnostic'',
        d_message = Some (''Low confidence diagnosis for '' @ a_type a @ '': '' @ rootCause d),
        d_severity = Some HIGH, d_threshold = None, d_value = None,
        d_metadata = Some [(''reason'', ''Low confidence - requires human review'')]\<rparr>"

text \<open>
  \<open>handleAlert(event)\<close> for the alert of the event. \<open>confidenceThreshold\<close> is
  \<open>config.agents.diagnostic.confidenceThreshold\<close>; \<open>diagnosed\<close> is what
  \<open>await this.diagnose(alert)\<close> gave: a diagnosis, or the message of the exception it
  threw. The bus calls are taken to succeed.
\<close>

definition handleAlert ::
  "diagnostic_agent \<Rightarrow> real \<Rightarrow> alert \<Rightarrow> string + diagnosis \<Rightarrow> effect list" where
  "handleAlert ag confidenceThreshold a diagnosed =
     (if \<not> dg_running ag then []
      else if a_id a \<in> pendingDiagnoses ag then []
      else if a_severity a = INFO \<or> a_severity a = LOW then []
      else case diagnosed of
             Inl err \<Rightarrow> [PublishAgentError err (a_id a)]
           | Inr d \<Rightarrow>
               PublishDiagnosis (a_id a) d #
               (if confidence d \<ge> confidenceThreshold \<and> autoFixable d
                  then [PublishRepairRequest (a_id a) d]
                else if confidence d < 0.5 then [escalate a d]
                else []))"

text \<open>An alert is diagnosed when the agent runs, is not already diagnosing it, its
  severity is above the floor, and \<open>diagnose\<close> returned.\<close>

definition diagnosedWith :: "diagnostic_agent \<Rightarrow> alert \<Rightarrow> string + diagnosis \<Rightarrow> diagnosis \<Rightarrow> bool" where
  "diagnosedWith ag a diagnosed d \<longleftrightarrow>
     dg_running ag \<and> a_id a \<notin> pendingDiagnoses ag \<and> a_severity a \<noteq> INFO \<and> a_severity a \<noteq> LOW \<and>
     diagnosed = Inr d"

text \<open>An alert and an externally produced diagnosis of confidence 0.3, for scenarios.\<close>

definition cpu_alert :: alert where
  "cpu_alert = \<lparr>a_id = ''a1'', a_type = ''CPU_HIGH'', a_component = ''system'',
      a_message = ''CPU usage high'', a_severity = HIGH, thresholdValue = Some 80,
      actualValue = Some 130, a_metadata = [], acknowledged = False, acknowledgedBy = None,
      acknowledgedAt = None, resolved = False, autoResolved = False, resolution = None,
      resolvedAt = None, createdAt = 10, updatedAt = 10, a_count = None, lastOccurrence = None\<rparr>"

definition unsure_diagnosis :: diagnosis where
  "unsure_diagnosis = \<lparr>dg_alertType = None, dg_component = None,
      rootCause = ''possibly a runaway worker'', dg_severity = HIGH, confidence = 0.3,
      suggestedFix = ''restart the worker'', fixType = ''SERVICE_RESTART'', autoFixable = True,
      estimatedFixTime = ''60'', affectedUsers = 0, preventionAdvice = ''none'', diagnosedBy = ''ai''\<rparr>"

section \<open>Monitor Agent\<close>

text \<open>
  One pass of each health-check loop for one target. The probe (\<open>fetch\<close> under
  \<open>withTimeout\<close>, \<open>SELECT 1\<close>, \<open>PING\<close>) either answers or fails with an exception or a
  timeout; \<open>elapsed\<close> is the time measured around it. \<open>recordError\<close> is the exception, if
  any, thrown while the metric is recorded, which is the first call after the probe
  inside the same \<open>try\<close> block. The thresholds are those of \<open>config.thresholds\<close>.
  The messages of the threshold alerts leave out the numbers the source interpolates,
  the error-count metric leaves out its \<open>status\<close> tag, and the metric name of an
  external service (\<open>external_api_\<close> followed by the lower-cased service name) is given
  with the service.
\<close>

datatype probe = Responded bool | ProbeFailed string

record thresholds =
  apiResponseTime :: real
  databaseQueryTime :: real
  redisResponseTime :: real

definition defaultThresholds :: thresholds where
  "defaultThresholds = \<lparr>apiResponseTime = 500, databaseQueryTime = 100, redisResponseTime = 50\<rparr>"

definition no_data :: alert_data where
  "no_data = \<lparr>d_component = None, d_message = None, d_severity = None, d_threshold = None,
      d_value = None, d_metadata = None\<rparr>"

text \<open>The \<open>catch\<close> blocks.\<close>

definition apiDown :: "string \<Rightarrow> string \<Rightarrow> effect list" where
  "apiDown endpoint msg =
     [CreateAlert ''API_DOWN''
        (no_data\<lparr>d_component := Some ''api'',
                 d_message := Some (''API endpoint '' @ endpoint @ '' is down: '' @ msg),
                 d_severity := Some CRITICAL,
                 d_metadata := Some [(''endpoint'', endpoint), (''error'', msg)]\<rparr>),
      SetLastCheck (''api:'' @ endpoint) Down]"

definition databaseDown :: "string \<Rightarrow> effect list" where
  "databaseDown msg =
     [CreateAlert ''DB_CONNECTION_ERROR''
        (no_data\<lparr>d_component := Some ''database'',
                 d_message := Some (''Database connection error: '' @ msg),
                 d_severity := Some CRITICAL, d_metadata := Some [(''error'', msg)]\<rparr>),
      SetLastCheck ''database'' Down]"

definition redisDown :: "string \<Rightarrow> effect list" where
  "redisDown msg =
     [CreateAlert ''REDIS_DOWN''
        (no_data\<lparr>d_component := Some ''redis'',
                 d_message := Some (''Redis connection error: '' @ msg),
                 d_severity := Some HIGH, d_metadata := Some [(''error'', msg)]\<rparr>),
      SetLastCheck ''redis'' Down]"

definition externalDown :: "string \<Rightarrow> string \<Rightarrow> effect list" where
  "externalDown name msg =
     [CreateAlert ''EXTERNAL_API_DOWN''
        (no_data\<lparr>d_component := Some ''external'',
                 d_message := Some (''External API '' @ name @ '' may be unreachable''),
                 d_severity := Some MEDIUM,
                 d_metadata := Some [(''service'', name), (''error'', msg)]\<rparr>),
      SetLastCheck (''external:'' @ name) Down]"

text \<open>\<open>startAPIMonitoring\<close>, for one endpoint.\<close>

definition checkAPI :: "thresholds \<Rightarrow> string \<Rightarrow> probe \<Rightarrow> real \<Rightarrow> string option \<Rightarrow> effect list" where
  "checkAPI th endpoint p elapsed recordError =
     (case p of
        ProbeFailed msg \<Rightarrow> apiDown endpoint msg
      | Responded ok \<Rightarrow>
          (case recordError of
             Some msg \<Rightarrow> apiDown endpoint msg
           | None \<Rightarrow>
               [RecordMetric ''api_response_time'' elapsed ''api'' [(''endpoint'', endpoint)]] @
               (if elapsed > apiResponseTime th
                then [CreateAlert ''API_SLOW''
                        (no_data\<lparr>d_component := Some ''api'',
                                 d_message := Some (''API endpoint '' @ endpoint @ '' slow''),
                                 d_value := Some elapsed, d_threshold := Some (apiResponseTime th),
                                 d_metadata := Some [(''endpoint'', endpoint)]\<rparr>)]
                else []) @
               (if \<not> ok then [RecordMetric ''api_error_count'' 1 ''api'' [(''endpoint'', endpoint)]]
                else []) @
               [SetLastCheck (''api:'' @ endpoint) Healthy]))"

text \<open>\<open>startDatabaseMonitoring\<close>; the loop does nothing without a database client.\<close>

definition checkDatabase :: "thresholds \<Rightarrow> bool \<Rightarrow> probe \<Rightarrow> real \<Rightarrow> string option \<Rightarrow> effect list" where
  "checkDatabase th hasDb p elapsed recordError =
     (if \<not> hasDb then []
      else case p of
        ProbeFailed msg \<Rightarrow> databaseDown msg
      | Responded ok \<Rightarrow>
          (case recordError of
             Some msg \<Rightarrow> databaseDown msg
           | None \<Rightarrow>
               [RecordMetric ''db_query_time'' elapsed ''database'' [(''query'', ''health_check'')]] @
               (if elapsed > databaseQueryTime th
                then [CreateAlert ''DB_SLOW''
                        (no_data\<lparr>d_component := Some ''database'',
                                 d_message := Some ''Database query slow'',
                                 d_value := Some elapsed,
                                 d_threshold := Some (databaseQueryTime th)\<rparr>)]
                else []) @
               [SetLastCheck ''database'' Healthy]))"

text \<open>\<open>startRedisMonitoring\<close>; the loop does nothing without a cache client.\<close>

definition checkRedis :: "thresholds \<Rightarrow> bool \<Rightarrow> probe \<Rightarrow> real \<Rightarrow> string option \<Rightarrow> effect list" where
  "checkRedis th hasRedis p elapsed recordError =
     (if \<not> hasRedis then []
      else case p of
        ProbeFailed msg \<Rightarrow> redisDown msg
      | Responded ok \<Rightarrow>
          (case recordError of
             Some msg \<Rightarrow> redisDown msg
           | None \<Rightarrow>
               [RecordMetric ''redis_response_time'' elapsed ''redis'' []] @
               (if elapsed > redisResponseTime th
                then [CreateAlert ''REDIS_SLOW''
                        (no_data\<lparr>d_component := Some ''redis'', d_message := Some ''Redis slow'',
                                 d_value := Some elapsed,
                                 d_threshold := Some (redisResponseTime th)\<rparr>)]
                else []) @
               [SetLastCheck ''redis'' Healthy]))"

text \<open>
  \<open>startExternalAPIMonitoring\<close>, for one service. The probe is
  \<open>fetch(...).catch(() => null)\<close>: a failed probe is turned into the response \<open>null\<close>
  and the pass goes on. The \<open>catch\<close> block of the pass is reached only when recording the
  metric throws.
\<close>

definition checkExternal :: "string \<Rightarrow> string \<Rightarrow> probe \<Rightarrow> real \<Rightarrow> string option \<Rightarrow> effect list" where
  "checkExternal name metricName p elapsed recordError =
     (let response = (case p of ProbeFailed msg \<Rightarrow> False | Responded ok \<Rightarrow> True)
      in case recordError of
           Some msg \<Rightarrow> externalDown name msg
         | None \<Rightarrow>
             [RecordMetric metricName elapsed ''external'' [(''service'', name)],
              SetLastCheck (''external:'' @ name) (if response then Healthy else Degraded)])"

text \<open>The probed targets, and one pass of the check of a target.\<close>

datatype target = ApiEndpoint string | Datastore | Cache | ExternalService string string

fun checkTarget :: "thresholds \<Rightarrow> target \<Rightarrow> probe \<Rightarrow> real \<Rightarrow> string option \<Rightarrow> effect list" where
  "checkTarget th (ApiEndpoint endpoint) p elapsed re = checkAPI th endpoint p elapsed re"
| "checkTarget th Datastore p elapsed re = checkDatabase th True p elapsed re"
| "checkTarget th Cache p elapsed re = checkRedis th True p elapsed re"
| "checkTarget th (ExternalService name metricName) p elapsed re =
     checkExternal name metricName p elapsed re"

text \<open>The severities of the alerts among the effects of a pass.\<close>

fun alertSeverities :: "effect list \<Rightarrow> severity list" where
  "alertSeverities [] = []"
| "alertSeverities (CreateAlert ty d # es) = assignedSeverity ty d # alertSeverities es"
| "alertSeverities (e # es) = alertSeverities es"

section \<open>Learning Agent\<close>

text \<open>
  \<open>patterns\<close> is the \<open>Map\<close> from pattern hash to pattern. \<open>generateHash\<close> (the first 16 hex
  digits of the SHA-256 of the JSON text of the symptoms) is a parameter of the
  operations: any function of the symptoms. \<open>successRate\<close> and \<open>avgFixTimeSeconds\<close> are
  Numbers, computed in double precision; the counts are naturals (they stay below
  \<open>2^53\<close>, where doubles count exactly). The Redis copy of a pattern is not part of the
  model.
\<close>

record symptoms =
  s_alertType :: string
  s_component :: string
  s_fixType :: string
  s_severity :: severity

record pattern =
  pt_id :: string
  patternHash :: string
  pt_symptoms :: symptoms
  pt_rootCause :: string
  solution :: string
  successCount :: nat
  failureCount :: nat
  successRate :: number
  avgFixTimeSeconds :: number
  autoFixEnabled :: bool
  lastAppliedAt :: time
  pt_createdAt :: time
  pt_updatedAt :: time

record repair_result =
  r_success :: bool
  r_duration :: "number option"

text \<open>\<open>config.agents.learning\<close>; the literal \<open>0.95\<close> is the double nearest to 95/100.\<close>

record learning_config =
  minSuccessRate :: number
  minOccurrences :: int
  patternExpiry :: int

definition defaultLearningConfig :: learning_config where
  "defaultLearningConfig =
     \<lparr>minSuccessRate = round64 (95 / 100), minOccurrences = 3, patternExpiry = 90\<rparr>"

record queued_repair =
  q_alertId :: string
  q_diagnosis :: diagnosis
  q_result :: repair_result
  q_timestamp :: time

record learning_agent =
  l_running :: bool
  patterns :: "string \<rightharpoonup> pattern"
  learningQueue :: "queued_repair list"

definition newLearningAgent :: learning_agent where
  "newLearningAgent = \<lparr>l_running = False, patterns = Map.empty, learningQueue = []\<rparr>"

text \<open>The data of the event \<open>learnFromRepair\<close> publishes on the pattern channel.\<close>

record pattern_learned =
  pl_pattern :: pattern
  pl_action :: string

definition symptomsOf :: "diagnosis \<Rightarrow> symptoms" where
  "symptomsOf d =
     \<lparr>s_alertType = str_or (dg_alertType d) ''unknown'',
      s_component = str_or (dg_component d) ''unknown'',
      s_fixType = fixType d, s_severity = dg_severity d\<rparr>"

text \<open>\<open>result.duration || 60000\<close>\<close>

definition fixTimeOf :: "repair_result \<Rightarrow> number" where
  "fixTimeOf r =
     (case r_duration r of
        None \<Rightarrow> Finite 60000
      | Some x \<Rightarrow> if truthy_number x then x else Finite 60000)"

text \<open>
  \<open>learnFromRepair(alertId, diagnosis, result)\<close>, with the identifier drawn for a new
  pattern: the event it publishes (whose pattern it returns) and the agent afterwards.
\<close>

definition learnFromRepair ::
  "(symptoms \<Rightarrow> string) \<Rightarrow> learning_config \<Rightarrow> learning_agent \<Rightarrow> string \<Rightarrow> time \<Rightarrow>
   diagnosis \<Rightarrow> repair_result \<Rightarrow> pattern_learned \<times> learning_agent" where
  "learnFromRepair generateHash cfg la newId now d r =
     (let symptoms = symptomsOf d;
          h = generateHash symptoms;
          action = (if r_success r then ''PATTERN_REINFORCED'' else ''PATTERN_WEAKENED'')
      in case patterns la h of
           Some p \<Rightarrow>
             (let sc = (if r_success r then successCount p + 1 else successCount p);
                  fc = (if r_success r then failureCount p else failureCount p + 1);
                  rate = jsdiv (Finite (real sc)) (Finite (real (sc + fc)));
                  newFixTime = fixTimeOf r;
                  avg = math_round
                          (jsdiv (jsadd (jsmul (avgFixTimeSeconds p) (Finite (real sc - 1)))
                                        (jsdiv newFixTime (Finite 1000)))
                                 (Finite (real sc)));
                  enabled = (if num_ge rate (minSuccessRate cfg) \<and> int sc \<ge> minOccurrences cfg
                             then True else autoFixEnabled p);
                  p' = p\<lparr>successCount := sc, failureCount := fc, successRate := rate,
                          lastAppliedAt := now, pt_updatedAt := now,
                          avgFixTimeSeconds := avg, autoFixEnabled := enabled\<rparr>
              in (\<lparr>pl_pattern = p', pl_action = action\<rparr>, la\<lparr>patterns := (patterns la)(h \<mapsto> p')\<rparr>))
         | None \<Rightarrow>
             (let p = \<lparr>pt_id = newId, patternHash = h, pt_symptoms = symptoms,
                       pt_rootCause = rootCause d, solution = suggestedFix d,
                       successCount = (if r_success r then 1 else 0),
                       failureCount = (if r_success r then 0 else 1),
                       successRate = Finite (if r_success r then 1 else 0),
                       avgFixTimeSeconds = math_round (jsdiv (fixTimeOf r) (Finite 1000)),
                       autoFixEnabled = False,
                       lastAppliedAt = now, pt_createdAt = now, pt_updatedAt = now\<rparr>
              in (\<lparr>pl_pattern = p, pl_action = action\<rparr>, la\<lparr>patterns := (patterns la)(h \<mapsto> p)\<rparr>)))"

text \<open>
  \<open>handleRepairComplete(event)\<close> for the \<open>alertId\<close>, \<open>diagnosis\<close> and \<open>result\<close> of the
  event's data: the event published on the pattern channel, if any, and the agent
  afterwards. Nothing in the agent reads \<open>learningQueue\<close>.
\<close>

definition handleRepairComplete ::
  "(symptoms \<Rightarrow> string) \<Rightarrow> learning_config \<Rightarrow> learning_agent \<Rightarrow> string \<Rightarrow> time \<Rightarrow>
   string \<Rightarrow> diagnosis \<Rightarrow> repair_result \<Rightarrow> pattern_learned option \<times> learning_agent" where
  "handleRepairComplete generateHash cfg la newId now alertId d r =
     (if \<not> l_running la then (None, la)
      else
        (let la1 = la\<lparr>learningQueue := learningQueue la @
                     [\<lparr>q_alertId = alertId, q_diagnosis = d, q_result = r, q_timestamp = now\<rparr>]\<rparr>
         in if r_success r
            then (case learnFromRepair generateHash cfg la1 newId now d r of
                    (ev, la2) \<Rightarrow> (Some ev, la2))
            else (None, la1)))"

text \<open>
  A run of repair-complete events, each with the identifier and the clock reading of
  its handling, and the events published in the course of it.
\<close>

record repair_complete =
  rc_newId :: string
  rc_now :: time
  rc_alertId :: string
  rc_diagnosis :: diagnosis
  rc_result :: repair_result

fun learning_run ::
  "(symptoms \<Rightarrow> string) \<Rightarrow> learning_config \<Rightarrow> learning_agent \<Rightarrow> repair_complete list \<Rightarrow>
   pattern_learned list \<times> learning_agent" where
  "learning_run gh cfg la [] = ([], la)"
| "learning_run gh cfg la (e # es) =
     (case handleRepairComplete gh cfg la (rc_newId e) (rc_now e) (rc_alertId e)
             (rc_diagnosis e) (rc_result e) of
        (published, la') \<Rightarrow>
          (case learning_run gh cfg la' es of
             (evs, la'') \<Rightarrow> ((case published of None \<Rightarrow> [] | Some ev \<Rightarrow> [ev]) @ evs, la'')))"

text \<open>The agent after \<open>start()\<close> with no stored pattern to load.\<close>

definition startedLearningAgent :: learning_agent where
  "startedLearningAgent = newLearningAgent\<lparr>l_running := True\<rparr>"

text \<open>
  For scenarios: a stand-in for the hash, the rule-based diagnosis of a slow database
  (it has no \<open>alertType\<close> and no \<open>component\<close> property), and the results of a repair that
  succeeded and of one that failed verification.
\<close>

definition plain_hash :: "symptoms \<Rightarrow> string" where
  "plain_hash s = s_alertType s @ ''|'' @ s_component s @ ''|'' @ s_fixType s"

definition db_diagnosis :: diagnosis where
  "db_diagnosis = \<lparr>dg_alertType = None, dg_component = None,
      rootCause = ''Database queries taking too long'', dg_severity = HIGH, confidence = 0.75,
      suggestedFix = ''Add missing indexes or optimize queries'', fixType = ''DATABASE_INDEX'',
      autoFixable = True, estimatedFixTime = ''60'', affectedUsers = 0,
      preventionAdvice = ''Monitor thresholds and set up proactive alerts'', diagnosedBy = ''rules''\<rparr>"

definition repair_succeeded :: repair_result where
  "repair_succeeded = \<lparr>r_success = True, r_duration = None\<rparr>"

definition repair_failed :: repair_result where
  "repair_failed = \<lparr>r_success = False, r_duration = None\<rparr>"

definition slow_database_repairs :: "repair_complete list" where
  "slow_database_repairs =
     [\<lparr>rc_newId = ''p1'', rc_now = 1000, rc_alertId = ''a1'', rc_diagnosis = db_diagnosis,
       rc_result = repair_succeeded\<rparr>,
      \<lparr>rc_newId = ''p2'', rc_now = 2000, rc_alertId = ''a2'', rc_diagnosis = db_diagnosis,
       rc_result = repair_failed\<rparr>]"

section \<open>Metrics Store\<close>

text \<open>
  \<open>metrics\<close> is the \<open>Map\<close> from metric name to the array of retained samples, oldest
  first. \<open>record\<close> is named \<open>record_metric\<close> here. Its copy to Redis (failures are
  caught) and the metric event it publishes are not part of the model; the publish is
  taken to succeed.
\<close>

record metric =
  m_id :: string
  m_name :: string
  m_value :: real
  m_unit :: string
  m_component :: string
  m_tags :: "(string \<times> string) list"
  m_severity :: string
  m_timestamp :: time

record record_options =
  ro_unit :: "string option"
  ro_component :: "string option"
  ro_tags :: "(string \<times> string) list option"
  ro_severity :: "string option"

record metrics_store =
  metrics :: "string \<rightharpoonup> metric list"
  maxInMemoryPoints :: nat

definition newMetricsStore :: metrics_store where
  "newMetricsStore = \<lparr>metrics = Map.empty, maxInMemoryPoints = 10000\<rparr>"

text \<open>The sample \<open>record\<close> builds, with the defaults of its destructuring.\<close>

definition mkMetric :: "string \<Rightarrow> time \<Rightarrow> string \<Rightarrow> real \<Rightarrow> record_options \<Rightarrow> metric" where
  "mkMetric newId now name v opts =
     \<lparr>m_id = newId, m_name = name, m_value = v,
      m_unit = (case ro_unit opts of None \<Rightarrow> '''' | Some u \<Rightarrow> u),
      m_component = (case ro_component opts of None \<Rightarrow> ''system'' | Some c \<Rightarrow> c),
      m_tags = (case ro_tags opts of None \<Rightarrow> [] | Some t \<Rightarrow> t),
      m_severity = (case ro_severity opts of None \<Rightarrow> ''normal'' | Some s \<Rightarrow> s),
      m_timestamp = now\<rparr>"

text \<open>\<open>this.metrics.get(name) || []\<close>\<close>

definition retained :: "metrics_store \<Rightarrow> string \<Rightarrow> metric list" where
  "retained ms name = (case metrics ms name of None \<Rightarrow> [] | Some xs \<Rightarrow> xs)"

definition record_metric ::
  "metrics_store \<Rightarrow> string \<Rightarrow> time \<Rightarrow> string \<Rightarrow> real \<Rightarrow> record_options \<Rightarrow> metric \<times> metrics_store" where
  "record_metric ms newId now name v opts =
     (let metric = mkMetric newId now name v opts;
          metricArray = retained ms name @ [metric];
          metricArray = (if length metricArray > maxInMemoryPoints ms then tl metricArray
                         else metricArray)
      in (metric, ms\<lparr>metrics := (metrics ms)(name \<mapsto> metricArray)\<rparr>))"

text \<open>
  \<open>xs.slice(-limit)\<close>: the last \<open>limit\<close> elements for a positive limit, the whole array
  for \<open>limit = 0\<close> (\<open>-0\<close> is \<open>0\<close>), and the array without its first \<open>-limit\<close> elements for
  a negative limit.
\<close>

definition slice_neg :: "int \<Rightarrow> 'a list \<Rightarrow> 'a list" where
  "slice_neg limit xs =
     (if limit > 0 then drop (length xs - nat limit) xs
      else if limit = 0 then xs
      else drop (nat (- limit)) xs)"

record query_options =
  q_startTime :: "time option"
  q_endTime :: "time option"
  q_limit :: "int option"

definition defaultQuery :: query_options where
  "defaultQuery = \<lparr>q_startTime = None, q_endTime = None, q_limit = None\<rparr>"

definition get :: "metrics_store \<Rightarrow> string \<Rightarrow> query_options \<Rightarrow> metric list" where
  "get ms name opts =
     (let limit = (case q_limit opts of None \<Rightarrow> 100 | Some l \<Rightarrow> l);
          xs = retained ms name;
          xs = (case q_startTime opts of None \<Rightarrow> xs
                | Some startTime \<Rightarrow> filter (\<lambda>m. m_timestamp m \<ge> startTime) xs);
          xs = (case q_endTime opts of None \<Rightarrow> xs
                | Some endTime \<Rightarrow> filter (\<lambda>m. m_timestamp m \<le> endTime) xs)
      in slice_neg limit xs)"

text \<open>The helpers \<open>average\<close>, \<open>standardDeviation\<close> and \<open>percentile\<close> (for \<open>p\<close> from 0 to
  100) of \<open>utils/helpers.js\<close>.\<close>

definition average :: "real list \<Rightarrow> real" where
  "average arr = (if arr = [] then 0 else sum_list arr / real (length arr))"

definition standardDeviation :: "real list \<Rightarrow> real" where
  "standardDeviation arr =
     (if arr = [] then 0
      else sqrt (average (map (\<lambda>v. (v - average arr) ^ 2) arr)))"

definition percentile :: "real list \<Rightarrow> real \<Rightarrow> real" where
  "percentile arr p =
     (if arr = [] then 0
      else
        (let sorted = sort arr;
             index = (p / 100) * real (length sorted - 1);
             lower = nat \<lfloor>index\<rfloor>;
             upper = nat \<lceil>index\<rceil>;
             weight = index - real lower
         in if upper \<ge> length sorted then last sorted
            else sorted ! lower * (1 - weight) + sorted ! upper * weight))"

record stats =
  st_name :: string
  st_count :: nat
  st_min :: real
  st_max :: real
  st_avg :: real
  st_stdDev :: real
  st_p50 :: real
  st_p90 :: real
  st_p95 :: real
  st_p99 :: real
  st_latest :: real
  st_latestTimestamp :: time

definition getStats :: "metrics_store \<Rightarrow> string \<Rightarrow> query_options \<Rightarrow> stats option" where
  "getStats ms name opts =
     (let ms' = get ms name opts;
          values = map m_value ms'
      in if length values = 0 then None
         else Some \<lparr>st_name = name, st_count = length values,
                    st_min = Min (set values), st_max = Max (set values),
                    st_avg = average values, st_stdDev = standardDeviation values,
                    st_p50 = percentile values 50, st_p90 = percentile values 90,
                    st_p95 = percentile values 95, st_p99 = percentile values 99,
                    st_latest = last values, st_latestTimestamp = m_timestamp (last ms')\<rparr>)"

text \<open>Recording a run of samples under one name: for each, the identifier drawn, the
  clock reading, the value and the options.\<close>

record sample =
  sm_id :: string
  sm_time :: time
  sm_value :: real
  sm_opts :: record_options

definition metricOf :: "string \<Rightarrow> sample \<Rightarrow> metric" where
  "metricOf name s = mkMetric (sm_id s) (sm_time s) name (sm_value s) (sm_opts s)"

fun record_all :: "metrics_store \<Rightarrow> string \<Rightarrow> sample list \<Rightarrow> metrics_store" where
  "record_all ms name [] = ms"
| "record_all ms name (s # ss) =
     record_all (snd (record_metric ms (sm_id s) (sm_time s) name (sm_value s) (sm_opts s))) name ss"

text \<open>The last \<open>n\<close> elements of a list.\<close>

definition lastn :: "nat \<Rightarrow> 'a list \<Rightarrow> 'a list" where
  "lastn n xs = drop (length xs - n) xs"

text \<open>For scenarios: the options of a CPU sample, and the \<open>i\<close>-th of a run of samples
  taken one millisecond apart, with value \<open>i\<close>.\<close>

definition cpu_options :: record_options where
  "cpu_options = \<lparr>ro_unit = Some ''%'', ro_component = Some ''system'',
      ro_tags = Some [(''host'', ''web-1'')], ro_severity = None\<rparr>"

definition nth_sample :: "nat \<Rightarrow> sample" where
  "nth_sample i = \<lparr>sm_id = replicate (Suc i) CHR ''m'', sm_time = int i, sm_value = real i,
      sm_opts = cpu_options\<rparr>"

section \<open>Security Agent\<close>

subsection \<open>Threat patterns\<close>



text \<open>The canonical form the \<open>i\<close> flag compares: the upper-case letter of a lower-case
  ASCII letter.\<close>

definition upper :: "char \<Rightarrow> char" where
  "upper c = (case map_of (zip ''abcdefghijklmnopqrstuvwxyz'' ''ABCDEFGHIJKLMNOPQRSTUVWXYZ'') c of
                None \<Rightarrow> c | Some u \<Rightarrow> u)"















subsection \<open>Requests\<close>










subsection \<open>Threats, incidents and the agent\<close>
































section \<open>Verified properties\<close>

subsection \<open>Severity defaults\<close>






lemma exact_ratio_above: "(3 / 2 + 1 / 2 ^ 51) / (1 + 1 / 2 ^ 52) > (3 / 2 :: real)"
  by (simp add: field_simps)



subsection \<open>Rate limiter\<close>

lemma isAllowed_denied_same: "\<not> fst (isAllowed rl now key) \<Longrightarrow> snd (isAllowed rl now key) = rl"
  by (simp add: isAllowed_def Let_def split: if_splits)

lemma isAllowed_fst:
  "fst (isAllowed rl now key) \<longleftrightarrow> later (windowMs rl) now (keyRequestsOf rl key) < maxRequests rl"
  by (auto simp add: isAllowed_def Let_def later_def)

lemma isAllowed_params:
  "maxRequests (snd (isAllowed rl now key)) = maxRequests rl"
  "windowMs (snd (isAllowed rl now key)) = windowMs rl"
  by (simp_all add: isAllowed_def Let_def)

lemma cleanup_params:
  "maxRequests (cleanup rl now) = maxRequests rl"
  "windowMs (cleanup rl now) = windowMs rl"
  by (simp_all add: cleanup_def Let_def)

lemma apply_op_params:
  "maxRequests (apply_op rl c) = maxRequests rl"
  "windowMs (apply_op rl c) = windowMs rl"
  by (cases c; simp add: isAllowed_params cleanup_params)+

lemma run_ops_params:
  "maxRequests (run_ops rl cs) = maxRequests rl \<and> windowMs (run_ops rl cs) = windowMs rl"
  by (induction cs arbitrary: rl) (simp_all add: apply_op_params)

lemma isAllowed_other_key:
  "key \<noteq> k \<Longrightarrow> keyRequestsOf (snd (isAllowed rl now key)) k = keyRequestsOf rl k"
  by (simp add: isAllowed_def Let_def keyRequestsOf_def)

lemma isAllowed_granted_key:
  "fst (isAllowed rl now key) \<Longrightarrow>
   keyRequestsOf (snd (isAllowed rl now key)) key =
     filter (\<lambda>t. now - windowMs rl < t) (keyRequestsOf rl key) @ [now]"
  by (simp add: isAllowed_def Let_def keyRequestsOf_def split: if_splits)

lemma cleanup_key:
  "keyRequestsOf (cleanup rl now) k = filter (\<lambda>t. now - windowMs rl < t) (keyRequestsOf rl k)"
  by (simp add: cleanup_def Let_def keyRequestsOf_def split: option.splits)

lemma later_filter:
  "c \<le> x \<Longrightarrow> later w x (filter (\<lambda>t. c - w < t) ts) = later w x ts"
proof -
  assume c: "c \<le> x"
  have "filter (\<lambda>t. x - w < t) (filter (\<lambda>t. c - w < t) ts) = filter (\<lambda>t. x - w < t) ts"
    using c by (auto intro: filter_cong)
  then show ?thesis by (simp add: later_def)
qed

lemma later_snoc: "later w x (ts @ [t]) = later w x ts + (if x - w < t then 1 else 0)"
  by (simp add: later_def)

lemma in_window_snoc:
  "in_window w x (ts @ [t]) = in_window w x ts + (if x - w < t \<and> t \<le> x then 1 else 0)"
  by (simp add: in_window_def)

lemma in_window_le_later: "in_window w x ts \<le> later w x ts"
  unfolding in_window_def later_def by (induction ts) auto

lemma later_mono: "y \<le> x \<Longrightarrow> later w x ts \<le> later w y ts"
  unfolding later_def by (induction ts) auto

lemma in_window_eq_later: "\<forall>t \<in> set ts. t \<le> x \<Longrightarrow> in_window w x ts = later w x ts"
  unfolding in_window_def later_def by (induction ts) auto

lemma limiter_inv_weaken:
  "limiter_inv rl k G lo \<Longrightarrow> lo \<le> lo' \<Longrightarrow> limiter_inv rl k G lo'"
  unfolding limiter_inv_def by (meson order_trans)

lemma limiter_inv_grant:
  assumes inv: "limiter_inv rl k G now" and ok: "fst (isAllowed rl now k)"
  shows "limiter_inv (snd (isAllowed rl now k)) k (G @ [now]) now"
proof -
  let ?W = "windowMs rl"
  let ?S = "keyRequestsOf rl k"
  have Gle: "\<forall>t\<in>set G. t \<le> now"
    and same: "\<forall>x\<ge>now. later ?W x G = later ?W x ?S"
    and bound: "\<forall>x. in_window ?W x G \<le> maxRequests rl"
    using inv by (simp_all add: limiter_inv_def)
  have room: "later ?W now ?S < maxRequests rl"
    using ok by (simp add: isAllowed_fst)
  have S': "keyRequestsOf (snd (isAllowed rl now k)) k = filter (\<lambda>t. now - ?W < t) ?S @ [now]"
    by (rule isAllowed_granted_key [OF ok])
  have a: "\<forall>t\<in>set (G @ [now]). t \<le> now" using Gle by simp
  have b: "later ?W x (G @ [now]) = later ?W x (filter (\<lambda>t. now - ?W < t) ?S @ [now])"
    if "now \<le> x" for x
    using that same by (simp add: later_snoc later_filter)
  have c: "in_window ?W x (G @ [now]) \<le> maxRequests rl" for x
  proof (cases "x < now")
    case True
    then show ?thesis using bound by (simp add: in_window_snoc)
  next
    case False
    then have x: "now \<le> x" by simp
    have "in_window ?W x G \<le> later ?W x G" by (rule in_window_le_later)
    also have "\<dots> \<le> later ?W now G" by (rule later_mono [OF x])
    also have "\<dots> = later ?W now ?S" using same by simp
    finally have "in_window ?W x G < maxRequests rl" using room by simp
    then show ?thesis by (simp add: in_window_snoc)
  qed
  show ?thesis
    unfolding limiter_inv_def isAllowed_params S' using a b c by blast
qed

lemma limiter_inv_step:
  assumes inv: "limiter_inv rl k G lo" and le: "lo \<le> op_time c"
  shows "limiter_inv (apply_op rl c) k (G @ granted_now rl k c) (op_time c)"
proof (cases c)
  case (IsAllowed now key)
  have inv': "limiter_inv rl k G now"
    using limiter_inv_weaken [OF inv] le IsAllowed by simp
  show ?thesis
  proof (cases "fst (isAllowed rl now key) \<and> key = k")
    case True
    then have ok: "fst (isAllowed rl now k)" and key: "key = k" by auto
    show ?thesis using limiter_inv_grant [OF inv' ok] ok IsAllowed key by simp
  next
    case False
    then have "keyRequestsOf (snd (isAllowed rl now key)) k = keyRequestsOf rl k"
      using isAllowed_other_key isAllowed_denied_same by metis
    then show ?thesis
      using inv' False IsAllowed by (auto simp add: limiter_inv_def isAllowed_params)
  qed
next
  case (Cleanup now)
  have inv': "limiter_inv rl k G now"
    using limiter_inv_weaken [OF inv] le Cleanup by simp
  then show ?thesis
    using Cleanup by (simp add: limiter_inv_def cleanup_params cleanup_key later_filter)
qed

lemma limiter_inv_run:
  "limiter_inv rl k G lo \<Longrightarrow> sorted (lo # map op_time cs) \<Longrightarrow>
   \<exists>hi. limiter_inv (run_ops rl cs) k (G @ grants rl k cs) hi \<and>
        (\<forall>t \<in> set (lo # map op_time cs). t \<le> hi) \<and> hi \<in> set (lo # map op_time cs)"
proof (induction cs arbitrary: rl G lo)
  case Nil
  then show ?case by auto
next
  case (Cons c cs)
  have le: "lo \<le> op_time c" and srt: "sorted (op_time c # map op_time cs)"
    using Cons.prems(2) by auto
  have "limiter_inv (apply_op rl c) k (G @ granted_now rl k c) (op_time c)"
    by (rule limiter_inv_step [OF Cons.prems(1) le])
  from Cons.IH [OF this srt] obtain hi where
    hi: "limiter_inv (run_ops (apply_op rl c) cs) k ((G @ granted_now rl k c) @ grants (apply_op rl c) k cs) hi"
      "\<forall>t \<in> set (op_time c # map op_time cs). t \<le> hi" "hi \<in> set (op_time c # map op_time cs)"
    by blast
  then show ?case using le by (intro exI [of _ hi]) auto
qed

lemma limiter_inv_new: "limiter_inv (newRateLimiter m w) k [] lo"
  by (simp add: limiter_inv_def newRateLimiter_def keyRequestsOf_def later_def in_window_def)

lemma run_from_new:
  assumes "sorted (lo # map op_time ops)"
  shows "\<exists>hi. limiter_inv (run_ops (newRateLimiter m w) ops) k (grants (newRateLimiter m w) k ops) hi \<and>
          hi \<in> set (lo # map op_time ops)"
  using limiter_inv_run [OF limiter_inv_new [of m w k lo] assms] by auto

text \<open>
  Claim C10, as the code has it. For every key and every history of \<open>isAllowed\<close> calls
  (and cleanups) on a fresh limiter whose clock readings never decrease, at most \<open>maxRequests\<close> of the calls
  granted for the key have their grant time inside any window of \<open>windowMs\<close>
  milliseconds; a denied call leaves the limiter unchanged (it is not recorded); and the
  next call is granted exactly when fewer than \<open>maxRequests\<close> granted timestamps lie in
  the window that ends at that call, whether or not \<open>cleanup\<close> ever ran.
\<close>

theorem C10_sliding_window_limit:
  assumes "sorted (map op_time ops)"
  shows "(\<forall>x. in_window w x (grants (newRateLimiter m w) k ops) \<le> m) \<and>
         (\<forall>now. (\<forall>t \<in> set (map op_time ops). t \<le> now) \<longrightarrow>
           fst (isAllowed (run_ops (newRateLimiter m w) ops) now k)
             = (in_window w now (grants (newRateLimiter m w) k ops) < m)) \<and>
         (\<forall>rl now key. \<not> fst (isAllowed rl now key) \<longrightarrow> snd (isAllowed rl now key) = rl)"
proof (intro conjI)
  let ?rl = "newRateLimiter m w"
  have par: "maxRequests (run_ops ?rl ops) = m" "windowMs (run_ops ?rl ops) = w"
    using run_ops_params [of ?rl ops] by (simp_all add: newRateLimiter_def)
  have srt: "sorted (lo # map op_time ops)" if "ops = [] \<or> lo = op_time (hd ops)" for lo
    using assms that by (cases ops) auto
  from run_from_new [OF srt, of "op_time (hd ops)" m w k] obtain hi where
    "limiter_inv (run_ops ?rl ops) k (grants ?rl k ops) hi"
    by auto
  then show "\<forall>x. in_window w x (grants ?rl k ops) \<le> m"
    by (simp add: limiter_inv_def par)
  show "\<forall>now. (\<forall>t \<in> set (map op_time ops). t \<le> now) \<longrightarrow>
           fst (isAllowed (run_ops ?rl ops) now k) = (in_window w now (grants ?rl k ops) < m)"
  proof (intro allI impI)
    fix now assume le: "\<forall>t \<in> set (map op_time ops). t \<le> now"
    let ?lo = "if ops = [] then now else op_time (hd ops)"
    have "sorted (?lo # map op_time ops)" by (rule srt) simp
    from run_from_new [OF this, of m w k] obtain hi where
      hi: "limiter_inv (run_ops ?rl ops) k (grants ?rl k ops) hi" "hi \<in> set (?lo # map op_time ops)"
      by auto
    have "hi \<le> now" using hi(2) le by (cases ops) auto
    from limiter_inv_weaken [OF hi(1) this]
    have inv: "limiter_inv (run_ops ?rl ops) k (grants ?rl k ops) now" .
    then have "in_window w now (grants ?rl k ops) = later w now (grants ?rl k ops)"
      by (simp add: limiter_inv_def in_window_eq_later)
    also have "\<dots> = later w now (keyRequestsOf (run_ops ?rl ops) k)"
      using inv by (simp add: limiter_inv_def par)
    finally show "fst (isAllowed (run_ops ?rl ops) now k) = (in_window w now (grants ?rl k ops) < m)"
      by (simp add: isAllowed_fst par)
  qed
  show "\<forall>rl now key. \<not> fst (isAllowed rl now key) \<longrightarrow> snd (isAllowed rl now key) = rl"
    by (simp add: isAllowed_denied_same)
qed

theorem C10_sliding_window_limit_witness:
  "sorted (map op_time
     [IsAllowed 1 ''ip'', IsAllowed 2 ''ip'', IsAllowed 3 ''ip'', Cleanup 5, IsAllowed 12 ''ip'']) \<and>
   grants (newRateLimiter 2 10) ''ip''
     [IsAllowed 1 ''ip'', IsAllowed 2 ''ip'', IsAllowed 3 ''ip'', Cleanup 5, IsAllowed 12 ''ip'']
     = [1, 2, 12] \<and>
   in_window 10 10 (grants (newRateLimiter 2 10) ''ip''
     [IsAllowed 1 ''ip'', IsAllowed 2 ''ip'', IsAllowed 3 ''ip'', Cleanup 5, IsAllowed 12 ''ip'']) \<le> 2 \<and>
   fst (isAllowed (run_ops (newRateLimiter 2 10)
     [IsAllowed 1 ''ip'', IsAllowed 2 ''ip'', IsAllowed 3 ''ip'', Cleanup 5, IsAllowed 12 ''ip'']) 13 ''ip'')"
  using C10_sliding_window_limit
    [of "[IsAllowed 1 ''ip'', IsAllowed 2 ''ip'', IsAllowed 3 ''ip'', Cleanup 5, IsAllowed 12 ''ip'']"
        10 2 "''ip''"]
  by (simp add: isAllowed_def newRateLimiter_def cleanup_def keyRequestsOf_def Let_def in_window_def)

text \<open>
  Against C10 as stated (any sequence of calls): \<open>Date.now()\<close> is the wall clock, which can
  be set back. With at most 2 requests per 10 milliseconds and the readings 100, 101,
  200 and 102, all four calls are granted, and three of the grant times (100, 101 and
  102) lie in the window of 10 milliseconds that ends at 102.
\<close>

theorem C10_clock_set_back_exceeds_limit:
  "grants (newRateLimiter 2 10) ''ip''
     [IsAllowed 100 ''ip'', IsAllowed 101 ''ip'', IsAllowed 200 ''ip'', IsAllowed 102 ''ip'']
     = [100, 101, 200, 102] \<and>
   in_window 10 102 (grants (newRateLimiter 2 10) ''ip''
     [IsAllowed 100 ''ip'', IsAllowed 101 ''ip'', IsAllowed 200 ''ip'', IsAllowed 102 ''ip'']) = 3 \<and>
   maxRequests (newRateLimiter 2 10) = 2"
  by (simp add: isAllowed_def newRateLimiter_def keyRequestsOf_def Let_def in_window_def)

subsection \<open>Event Bus dispatch\<close>

lemma call_listeners_throw:
  "call_listeners hs1 ev now s = (None, s1) \<Longrightarrow> h ev now s1 = (Some err, s2) \<Longrightarrow>
   call_listeners (hs1 @ h # hs2) ev now s = (Some err, s2)"
proof (induction hs1 arbitrary: s)
  case Nil
  then show ?case by simp
next
  case (Cons g gs)
  obtain r s' where g: "g ev now s = (r, s')" by (cases "g ev now s") auto
  show ?case
  proof (cases r)
    case None
    then show ?thesis using Cons g by simp
  next
    case (Some e)
    then show ?thesis using Cons.prems(1) g by simp
  qed
qed

text \<open>
  Claim C2. When the handlers subscribed to a channel are called in turn and one of them
  throws, \<open>publish\<close> fails with that handler's exception and leaves the state as that
  handler left it: the handlers subscribed after it never receive the event.
\<close>

theorem C2_throwing_listener_stops_dispatch:
  assumes "map snd (filter (\<lambda>l. fst l = channel) (listeners bus)) = hs1 @ h # hs2"
    and "\<And>ev. call_listeners hs1 ev now s = (None, s1)"
    and "\<And>ev. h ev now s1 = (Some err, s2)"
  shows "fst (publish bus eventId now channel dat s) = Inl err \<and>
         snd (snd (publish bus eventId now channel dat s)) = s2"
proof -
  have "call_listeners (hs1 @ h # hs2) ev now s = (Some err, s2)" for ev
    by (rule call_listeners_throw) (rule assms(2), rule assms(3))
  then show ?thesis
    using assms(1) by (simp add: publish_def emit_def Let_def)
qed

theorem C2_throwing_listener_stops_dispatch_witness:
  "fst (publish
     (snd (subscribe (snd (subscribe newEventBus ''s1'' 0 ''alert''
        (logging_listener ''first'' (Some ''boom'')) ''A''))
        ''s2'' 0 ''alert'' (logging_listener ''second'' None) ''B''))
     ''e1'' 5 ''alert'' \<lparr>source = Some ''test''\<rparr> []) = Inl ''boom'' \<and>
   snd (snd (publish
     (snd (subscribe (snd (subscribe newEventBus ''s1'' 0 ''alert''
        (logging_listener ''first'' (Some ''boom'')) ''A''))
        ''s2'' 0 ''alert'' (logging_listener ''second'' None) ''B''))
     ''e1'' 5 ''alert'' \<lparr>source = Some ''test''\<rparr> [])) = [''first''] \<and>
   snd (snd (publish
     (snd (subscribe (snd (subscribe newEventBus ''s1'' 0 ''alert''
        (logging_listener ''first'' None) ''A''))
        ''s2'' 0 ''alert'' (logging_listener ''second'' None) ''B''))
     ''e1'' 5 ''alert'' \<lparr>source = Some ''test''\<rparr> [])) = [''first'', ''second'']"
  using C2_throwing_listener_stops_dispatch [of "''alert''"
      "snd (subscribe (snd (subscribe newEventBus ''s1'' 0 ''alert''
        (logging_listener ''first'' (Some ''boom'')) ''A''))
        ''s2'' 0 ''alert'' (logging_listener ''second'' None) ''B'')"
      "[]" "logging_listener ''first'' (Some ''boom'')" "[logging_listener ''second'' None]"
      5 "[]" "[]" "''boom''" "[''first'']" "''e1''" "\<lparr>source = Some ''test''\<rparr>"]
  by (simp add: publish_def subscribe_def newEventBus_def emit_def logging_listener_def Let_def)

subsection \<open>Alert Manager\<close>

lemmas am_simps = am_bus_def subscribe_def newEventBus_def newAlertManager_def create_def publish_def
  emit_def handleIncomingAlert_def processAlert_def findRelatedAlert_def envelope_type_def
  envelope_component_def queueNotification_def db_log_def str_or_def
  acknowledge_def resolve_def unresolved_of_def Let_def

lemma findRelatedAlert_undefined: "findRelatedAlert am None cmpt = None"
  by (simp add: findRelatedAlert_def find_None_iff)

lemma handleIncomingAlert_keeps: "handleIncomingAlert ev now am = (None, am)"
  by (simp add: handleIncomingAlert_def processAlert_def envelope_type_def findRelatedAlert_undefined)

lemma map_of_db_log [simp]: "alerts (db_log am c) = alerts am"
  by (simp add: db_log_def split: option.splits)

lemma update_fresh: "map_of al k = None \<Longrightarrow> AList.update k v al = al @ [(k, v)]"
  by (induction al) (auto split: if_splits)

lemma create_listening:
  assumes "listeners bus = listeners am_bus"
  shows "\<exists>a bus'. create bus am newId eventId now ty d =
      (Inr a, bus', queueNotification (db_log (am\<lparr>alerts := AList.update newId a (alerts am)\<rparr>) (DbCreate a)) a now)
      \<and> listeners bus' = listeners am_bus \<and> a_id a = newId \<and> \<not> resolved a \<and> \<not> acknowledged a
      \<and> a_type a = ty \<and> a_component a = str_or (d_component d) ''system'' \<and> a_count a = None"
  using assms
  by (simp add: create_def publish_def emit_def am_bus_def subscribe_def newEventBus_def Let_def
      handleIncomingAlert_keeps update_conv' split: option.splits)

lemma create_on_am_bus:
  "\<exists>a bus'. create am_bus am newId eventId now ty d =
      (Inr a, bus', queueNotification (db_log (am\<lparr>alerts := AList.update newId a (alerts am)\<rparr>) (DbCreate a)) a now)
      \<and> listeners bus' = listeners am_bus \<and> a_id a = newId \<and> \<not> resolved a \<and> \<not> acknowledged a
      \<and> a_type a = ty \<and> a_component a = str_or (d_component d) ''system''"
  using create_listening [of am_bus am newId eventId now ty d] by auto

lemma acknowledge_unknown: "map_of (alerts am) i = None \<Longrightarrow> acknowledge am t i u = Inl (AlertNotFound i)"
  by (simp add: acknowledge_def)

lemma resolve_unknown: "map_of (alerts am) i = None \<Longrightarrow> resolve am t i opts = Inl (AlertNotFound i)"
  by (simp add: resolve_def Let_def)

lemma acknowledge_known:
  "map_of (alerts am) i = Some a \<Longrightarrow>
   \<exists>a' am'. acknowledge am t i u = Inr (a', am') \<and> map_of (alerts am') i = Some a' \<and>
     acknowledged a' \<and> resolved a' = resolved a"
  by (simp add: acknowledge_def Let_def update_conv')

lemma resolve_known:
  "map_of (alerts am) i = Some a \<Longrightarrow>
   \<exists>a' am'. resolve am t i opts = Inr (a', am') \<and> map_of (alerts am') i = Some a' \<and>
     resolved a' \<and> acknowledged a' = acknowledged a"
  by (simp add: resolve_def Let_def update_conv')

lemma resolved_again_same: "resolved a \<Longrightarrow> a\<lparr>resolved := True\<rparr> = a"
  by (cases a) simp

lemma resolve_again:
  "map_of (alerts am) i = Some a \<Longrightarrow> resolved a \<Longrightarrow>
   resolve am t i opts =
     Inr (a\<lparr>autoResolved := (case o_autoResolved opts of None \<Rightarrow> False | Some b \<Rightarrow> b),
            resolution := Some (case o_resolution opts of None \<Rightarrow> '''' | Some r \<Rightarrow> r),
            resolvedAt := Some t, updatedAt := t\<rparr>,
          db_log (am\<lparr>alerts := AList.update i
             (a\<lparr>autoResolved := (case o_autoResolved opts of None \<Rightarrow> False | Some b \<Rightarrow> b),
                resolution := Some (case o_resolution opts of None \<Rightarrow> '''' | Some r \<Rightarrow> r),
                resolvedAt := Some t, updatedAt := t\<rparr>) (alerts am)\<rparr>)
            (DbResolve i (case o_autoResolved opts of None \<Rightarrow> False | Some b \<Rightarrow> b) t))"
  by (simp add: resolve_def Let_def resolved_again_same)

text \<open>
  Claim C1. On a manager that listens on the alert channel, two \<open>create\<close> calls for one
  alert type and one component, under two fresh identifiers, add two unresolved alerts of
  that pair to the store, and neither carries an occurrence count: the second call does
  not find the first alert, it stores a duplicate.
\<close>

theorem C1_second_create_stores_duplicate:
  assumes "i1 \<noteq> i2" and "map_of (alerts am) i1 = None" and "map_of (alerts am) i2 = None"
  shows "map a_id (unresolved_of (snd (am_run (am_bus, am)
            [Create i1 e1 t1 ty d, Create i2 e2 t2 ty d])) ty (str_or (d_component d) ''system''))
          = map a_id (unresolved_of am ty (str_or (d_component d) ''system'')) @ [i1, i2] \<and>
         map a_count (unresolved_of (snd (am_run (am_bus, am)
            [Create i1 e1 t1 ty d, Create i2 e2 t2 ty d])) ty (str_or (d_component d) ''system''))
          = map a_count (unresolved_of am ty (str_or (d_component d) ''system'')) @ [None, None]"
proof -
  let ?c = "str_or (d_component d) ''system''"
  obtain a1 b1 where c1: "create am_bus am i1 e1 t1 ty d =
      (Inr a1, b1, queueNotification (db_log (am\<lparr>alerts := AList.update i1 a1 (alerts am)\<rparr>) (DbCreate a1)) a1 t1)"
    and l1: "listeners b1 = listeners am_bus"
    and p1: "a_id a1 = i1" "\<not> resolved a1" "a_type a1 = ty" "a_component a1 = ?c" "a_count a1 = None"
    using create_listening [of am_bus am i1 e1 t1 ty d] by auto
  let ?am1 = "queueNotification (db_log (am\<lparr>alerts := AList.update i1 a1 (alerts am)\<rparr>) (DbCreate a1)) a1 t1"
  have al1: "alerts ?am1 = alerts am @ [(i1, a1)]"
    using assms(2) by (simp add: queueNotification_def update_fresh)
  obtain a2 b2 where c2: "create b1 ?am1 i2 e2 t2 ty d =
      (Inr a2, b2, queueNotification (db_log (?am1\<lparr>alerts := AList.update i2 a2 (alerts ?am1)\<rparr>) (DbCreate a2)) a2 t2)"
    and p2: "a_id a2 = i2" "\<not> resolved a2" "a_type a2 = ty" "a_component a2 = ?c" "a_count a2 = None"
    using create_listening [OF l1, of ?am1 i2 e2 t2 ty d] by auto
  let ?am2 = "queueNotification (db_log (?am1\<lparr>alerts := AList.update i2 a2 (alerts ?am1)\<rparr>) (DbCreate a2)) a2 t2"
  have fresh2: "map_of (alerts ?am1) i2 = None"
    using assms(1,3) by (simp add: al1)
  have al2: "alerts ?am2 = alerts am @ [(i1, a1), (i2, a2)]"
    using fresh2 assms(2) by (simp add: queueNotification_def update_fresh)
  have run: "snd (am_run (am_bus, am) [Create i1 e1 t1 ty d, Create i2 e2 t2 ty d]) = ?am2"
    by (simp add: c1 c2)
  have u: "unresolved_of ?am2 ty ?c = unresolved_of am ty ?c @ [a1, a2]"
    unfolding unresolved_of_def al2 using p1 p2 by simp
  show ?thesis
    unfolding run u using p1 p2 by simp
qed

theorem C1_second_create_stores_duplicate_witness:
  "map a_id (unresolved_of (snd (am_run (am_bus, newAlertManager)
      [Create ''a1'' ''e1'' 10 ''DB_SLOW'' db_slow_data, Create ''a2'' ''e2'' 20 ''DB_SLOW'' db_slow_data]))
      ''DB_SLOW'' ''database'') = [''a1'', ''a2''] \<and>
   map a_count (unresolved_of (snd (am_run (am_bus, newAlertManager)
      [Create ''a1'' ''e1'' 10 ''DB_SLOW'' db_slow_data, Create ''a2'' ''e2'' 20 ''DB_SLOW'' db_slow_data]))
      ''DB_SLOW'' ''database'') = [None, None]"
  using C1_second_create_stores_duplicate [of "''a1''" "''a2''" newAlertManager "''e1''" 10 "''DB_SLOW''" db_slow_data "''e2''" 20]
  by (simp add: newAlertManager_def db_slow_data_def str_or_def unresolved_of_def)

text \<open>
  Claim C7, as the code has it. \<open>acknowledge\<close> and \<open>resolve\<close> fail with the not-found error
  when the id names no stored alert. For every alert created on a manager that listens
  on the alert channel, acknowledging and then resolving it succeeds and leaves it
  stored with \<open>resolved = true\<close>. Resolving an alert that is already resolved raises no
  error and keeps \<open>resolved = true\<close>; it overwrites \<open>autoResolved\<close>, \<open>resolution\<close>,
  \<open>resolvedAt\<close> and \<open>updatedAt\<close> with the values of the new call and, when a database is
  configured, issues the database update once more; the notification queue stays as it
  is.
\<close>

theorem C7_acknowledge_resolve_lifecycle:
  "(map_of (alerts am) i = None \<longrightarrow>
      acknowledge am t i u = Inl (AlertNotFound i) \<and> resolve am t i opts = Inl (AlertNotFound i)) \<and>
   (\<exists>a0 a1 a2. fst (am_run (am_bus, am) [Create i e t0 ty d, Acknowledge t1 i u, Resolve t2 i opts])
        = [Done a0, Done a1, Done a2] \<and> resolved a2 \<and> acknowledged a2 \<and>
      map_of (alerts (snd (am_run (am_bus, am) [Create i e t0 ty d, Acknowledge t1 i u, Resolve t2 i opts]))) i
        = Some a2) \<and>
   (\<forall>a. map_of (alerts am) i = Some a \<and> resolved a \<longrightarrow>
      (\<exists>a' am'. resolve am t i opts = Inr (a', am') \<and> resolved a' \<and>
         map_of (alerts am') i = Some a' \<and>
         a' = a\<lparr>autoResolved := (case o_autoResolved opts of None \<Rightarrow> False | Some b \<Rightarrow> b),
                 resolution := Some (case o_resolution opts of None \<Rightarrow> '''' | Some r \<Rightarrow> r),
                 resolvedAt := Some t, updatedAt := t\<rparr> \<and>
         db am' = map_option
           (\<lambda>calls. calls @ [DbResolve i (case o_autoResolved opts of None \<Rightarrow> False | Some b \<Rightarrow> b) t])
           (db am) \<and>
         notificationQueue am' = notificationQueue am))"
proof (intro conjI)
  show "map_of (alerts am) i = None \<longrightarrow>
      acknowledge am t i u = Inl (AlertNotFound i) \<and> resolve am t i opts = Inl (AlertNotFound i)"
    by (simp add: acknowledge_unknown resolve_unknown)
next
  obtain a0 bus' where c: "create am_bus am i e t0 ty d =
      (Inr a0, bus', queueNotification (db_log (am\<lparr>alerts := AList.update i a0 (alerts am)\<rparr>) (DbCreate a0)) a0 t0)"
    using create_on_am_bus [of am i e t0 ty d] by blast
  let ?am1 = "queueNotification (db_log (am\<lparr>alerts := AList.update i a0 (alerts am)\<rparr>) (DbCreate a0)) a0 t0"
  have s1: "map_of (alerts ?am1) i = Some a0"
    by (simp add: queueNotification_def update_conv')
  from acknowledge_known [OF s1, of t1 u] obtain a1 am2 where
    k: "acknowledge ?am1 t1 i u = Inr (a1, am2)" "map_of (alerts am2) i = Some a1" "acknowledged a1"
    by blast
  from resolve_known [OF k(2), of t2 opts] obtain a2 am3 where
    r: "resolve am2 t2 i opts = Inr (a2, am3)" "map_of (alerts am3) i = Some a2" "resolved a2"
       "acknowledged a2 = acknowledged a1"
    by blast
  have "am_run (am_bus, am) [Create i e t0 ty d, Acknowledge t1 i u, Resolve t2 i opts]
          = ([Done a0, Done a1, Done a2], am3)"
    by (simp add: c k(1) r(1))
  then show "\<exists>a0 a1 a2. fst (am_run (am_bus, am) [Create i e t0 ty d, Acknowledge t1 i u, Resolve t2 i opts])
        = [Done a0, Done a1, Done a2] \<and> resolved a2 \<and> acknowledged a2 \<and>
      map_of (alerts (snd (am_run (am_bus, am) [Create i e t0 ty d, Acknowledge t1 i u, Resolve t2 i opts]))) i
        = Some a2"
    using r k(3) by simp
next
  show "\<forall>a. map_of (alerts am) i = Some a \<and> resolved a \<longrightarrow>
      (\<exists>a' am'. resolve am t i opts = Inr (a', am') \<and> resolved a' \<and>
         map_of (alerts am') i = Some a' \<and>
         a' = a\<lparr>autoResolved := (case o_autoResolved opts of None \<Rightarrow> False | Some b \<Rightarrow> b),
                 resolution := Some (case o_resolution opts of None \<Rightarrow> '''' | Some r \<Rightarrow> r),
                 resolvedAt := Some t, updatedAt := t\<rparr> \<and>
         db am' = map_option
           (\<lambda>calls. calls @ [DbResolve i (case o_autoResolved opts of None \<Rightarrow> False | Some b \<Rightarrow> b) t])
           (db am) \<and>
         notificationQueue am' = notificationQueue am)"
    by (auto simp add: resolve_again update_conv' db_log_def split: option.splits)
qed

theorem C7_acknowledge_resolve_lifecycle_witness:
  "acknowledge newAlertManager 5 ''a1'' None = Inl (AlertNotFound ''a1'') \<and>
   resolve newAlertManager 5 ''a1'' \<lparr>o_autoResolved = None, o_resolution = None\<rparr> = Inl (AlertNotFound ''a1'') \<and>
   map_option resolved (map_of (alerts (snd (am_run (am_bus, newAlertManager)
      [Create ''a1'' ''e1'' 10 ''DB_SLOW'' db_slow_data, Acknowledge 15 ''a1'' (Some ''admin''),
       Resolve 20 ''a1'' \<lparr>o_autoResolved = None, o_resolution = Some ''fixed''\<rparr>]))) ''a1'') = Some True \<and>
   map_option resolved (map_of (alerts (snd (am_run (am_bus, newAlertManager\<lparr>db := Some []\<rparr>)
      [Create ''a1'' ''e1'' 10 ''DB_SLOW'' db_slow_data,
       Resolve 20 ''a1'' \<lparr>o_autoResolved = None, o_resolution = Some ''fixed''\<rparr>,
       Resolve 30 ''a1'' \<lparr>o_autoResolved = None, o_resolution = None\<rparr>]))) ''a1'') = Some True \<and>
   map_option (drop 1) (db (snd (am_run (am_bus, newAlertManager\<lparr>db := Some []\<rparr>)
      [Create ''a1'' ''e1'' 10 ''DB_SLOW'' db_slow_data,
       Resolve 20 ''a1'' \<lparr>o_autoResolved = None, o_resolution = Some ''fixed''\<rparr>,
       Resolve 30 ''a1'' \<lparr>o_autoResolved = None, o_resolution = None\<rparr>])))
     = Some [DbResolve ''a1'' False 20, DbResolve ''a1'' False 30]"
  using C7_acknowledge_resolve_lifecycle
    [of newAlertManager "''a1''" 5 None "\<lparr>o_autoResolved = None, o_resolution = None\<rparr>"
        "''e1''" 10 "''DB_SLOW''" db_slow_data 15 20]
    C7_acknowledge_resolve_lifecycle
    [of "snd (am_run (am_bus, newAlertManager\<lparr>db := Some []\<rparr>)
      [Create ''a1'' ''e1'' 10 ''DB_SLOW'' db_slow_data,
       Resolve 20 ''a1'' \<lparr>o_autoResolved = None, o_resolution = Some ''fixed''\<rparr>])"
       "''a1''" 30 None "\<lparr>o_autoResolved = None, o_resolution = None\<rparr>"
        "''e1''" 10 "''DB_SLOW''" db_slow_data 15 20]
  by (simp add: am_simps db_slow_data_def)

text \<open>
  Against C7 as stated (a second \<open>resolve\<close> has no state-changing side effect): after an
  automatic resolution at time 20, a second \<open>resolve\<close> with default options at time 30
  flips \<open>autoResolved\<close> back to false, moves \<open>resolvedAt\<close> to 30 and issues a third
  database call.
\<close>

theorem C7_second_resolve_changes_state:
  "map_option autoResolved (map_of (alerts (snd (am_run (am_bus, newAlertManager\<lparr>db := Some []\<rparr>)
      [Create ''a1'' ''e1'' 10 ''DB_SLOW'' db_slow_data,
       Resolve 20 ''a1'' \<lparr>o_autoResolved = Some True, o_resolution = Some ''Auto-fixed: DATABASE_INDEX''\<rparr>]))) ''a1'')
     = Some True \<and>
   map_option autoResolved (map_of (alerts (snd (am_run (am_bus, newAlertManager\<lparr>db := Some []\<rparr>)
      [Create ''a1'' ''e1'' 10 ''DB_SLOW'' db_slow_data,
       Resolve 20 ''a1'' \<lparr>o_autoResolved = Some True, o_resolution = Some ''Auto-fixed: DATABASE_INDEX''\<rparr>,
       Resolve 30 ''a1'' \<lparr>o_autoResolved = None, o_resolution = None\<rparr>]))) ''a1'')
     = Some False \<and>
   map_option resolvedAt (map_of (alerts (snd (am_run (am_bus, newAlertManager\<lparr>db := Some []\<rparr>)
      [Create ''a1'' ''e1'' 10 ''DB_SLOW'' db_slow_data,
       Resolve 20 ''a1'' \<lparr>o_autoResolved = Some True, o_resolution = Some ''Auto-fixed: DATABASE_INDEX''\<rparr>,
       Resolve 30 ''a1'' \<lparr>o_autoResolved = None, o_resolution = None\<rparr>]))) ''a1'')
     = Some (Some 30) \<and>
   map_option length (db (snd (am_run (am_bus, newAlertManager\<lparr>db := Some []\<rparr>)
      [Create ''a1'' ''e1'' 10 ''DB_SLOW'' db_slow_data,
       Resolve 20 ''a1'' \<lparr>o_autoResolved = Some True, o_resolution = Some ''Auto-fixed: DATABASE_INDEX''\<rparr>])))
     = Some 2 \<and>
   map_option length (db (snd (am_run (am_bus, newAlertManager\<lparr>db := Some []\<rparr>)
      [Create ''a1'' ''e1'' 10 ''DB_SLOW'' db_slow_data,
       Resolve 20 ''a1'' \<lparr>o_autoResolved = Some True, o_resolution = Some ''Auto-fixed: DATABASE_INDEX''\<rparr>,
       Resolve 30 ''a1'' \<lparr>o_autoResolved = None, o_resolution = None\<rparr>])))
     = Some 3"
  by (simp add: am_simps db_slow_data_def)

subsection \<open>Diagnostic Agent\<close>

text \<open>
  Claim C5, as the code has it. For every diagnosed alert the agent publishes a repair
  request if and only if the confidence reaches the configured threshold and the
  diagnosis is auto-fixable; it escalates if and only if that test fails and the
  confidence is below 0.5. A diagnosis of confidence 0.3 triggers no repair request and
  an escalation whenever the configured threshold is above 0.3.
\<close>

theorem C5_repair_or_escalate:
  "diagnosedWith ag a diagnosed d \<Longrightarrow>
   (PublishRepairRequest (a_id a) d \<in> set (handleAlert ag thr a diagnosed)
      \<longleftrightarrow> confidence d \<ge> thr \<and> autoFixable d) \<and>
   (escalate a d \<in> set (handleAlert ag thr a diagnosed)
      \<longleftrightarrow> \<not> (confidence d \<ge> thr \<and> autoFixable d) \<and> confidence d < 0.5) \<and>
   (confidence d = 0.3 \<and> 0.3 < thr \<longrightarrow>
      PublishRepairRequest (a_id a) d \<notin> set (handleAlert ag thr a diagnosed) \<and>
      escalate a d \<in> set (handleAlert ag thr a diagnosed))"
  by (auto simp add: diagnosedWith_def handleAlert_def escalate_def)

theorem C5_repair_or_escalate_witness:
  "diagnosedWith \<lparr>dg_running = True, pendingDiagnoses = {}\<rparr> cpu_alert (Inr unsure_diagnosis) unsure_diagnosis \<and>
   handleAlert \<lparr>dg_running = True, pendingDiagnoses = {}\<rparr> 0.8 cpu_alert (Inr unsure_diagnosis)
     = [PublishDiagnosis ''a1'' unsure_diagnosis, escalate cpu_alert unsure_diagnosis]"
  using C5_repair_or_escalate
    [of "\<lparr>dg_running = True, pendingDiagnoses = {}\<rparr>" cpu_alert "Inr unsure_diagnosis" unsure_diagnosis "0.8"]
  by (simp add: diagnosedWith_def handleAlert_def cpu_alert_def unsure_diagnosis_def)

text \<open>
  Against C5 as stated (confidence 0.3 never triggers a repair request and always an
  escalation): with the threshold configured to 0.2, an auto-fixable diagnosis of
  confidence 0.3 is sent to repair and is not escalated.
\<close>

theorem C5_low_threshold_repairs_unsure_diagnosis:
  "handleAlert \<lparr>dg_running = True, pendingDiagnoses = {}\<rparr> 0.2 cpu_alert (Inr unsure_diagnosis)
     = [PublishDiagnosis ''a1'' unsure_diagnosis, PublishRepairRequest ''a1'' unsure_diagnosis]"
  by (simp add: handleAlert_def cpu_alert_def unsure_diagnosis_def)

subsection \<open>Monitor Agent\<close>

lemmas monitor_simps = checkAPI_def checkDatabase_def checkRedis_def checkExternal_def apiDown_def
  databaseDown_def redisDown_def externalDown_def no_data_def assignedSeverity_def Let_def

text \<open>
  Claim C4, as the code has it. A failed connectivity probe of an internal API endpoint or
  of the datastore raises one alert of severity critical, and a failed probe of the cache
  raises one alert of severity high, whatever the thresholds and the measured time. A
  failed probe of an external dependency raises no alert (the target is marked
  degraded); the external check raises an alert only when recording its metric fails,
  and that alert has severity medium.
\<close>

theorem C4_failed_probe_alerts:
  "alertSeverities (checkTarget th (ApiEndpoint endpoint) (ProbeFailed msg) elapsed re) = [CRITICAL] \<and>
   alertSeverities (checkTarget th Datastore (ProbeFailed msg) elapsed re) = [CRITICAL] \<and>
   alertSeverities (checkTarget th Cache (ProbeFailed msg) elapsed re) = [HIGH] \<and>
   checkTarget th (ExternalService name metricName) (ProbeFailed msg) elapsed None =
     [RecordMetric metricName elapsed ''external'' [(''service'', name)],
      SetLastCheck (''external:'' @ name) Degraded] \<and>
   alertSeverities (checkTarget th (ExternalService name metricName) p elapsed (Some err)) = [MEDIUM]"
  by (simp add: monitor_simps)

theorem C4_failed_probe_alerts_witness:
  "alertSeverities (checkTarget defaultThresholds (ApiEndpoint ''/health'') (ProbeFailed ''API timeout: /health'') 10000 None)
     = [CRITICAL] \<and>
   alertSeverities (checkTarget defaultThresholds Cache (ProbeFailed ''ECONNREFUSED'') 3 None) = [HIGH]"
  using C4_failed_probe_alerts
    [of defaultThresholds "''/health''" "''API timeout: /health''" 10000 None]
    C4_failed_probe_alerts [of defaultThresholds _ "''ECONNREFUSED''" 3 None]
  by simp

text \<open>
  Against C4 as stated (every failed probe raises a critical or high alert): a probe of
  the external service OpenAI that times out raises no alert at all.
\<close>

theorem C4_failed_external_probe_raises_no_alert:
  "alertSeverities (checkTarget defaultThresholds (ExternalService ''OpenAI'' ''external_api_openai'')
      (ProbeFailed ''The operation was aborted'') 5000 None) = []"
  by (simp add: monitor_simps)

subsection \<open>Learning Agent\<close>

lemma round64_one: "round64 1 = Finite 1"
  by code_simp

lemma handle_failed:
  "\<not> r_success r \<Longrightarrow>
   handleRepairComplete gh cfg la newId now alertId d r =
     (None, if l_running la
            then la\<lparr>learningQueue := learningQueue la @
                   [\<lparr>q_alertId = alertId, q_diagnosis = d, q_result = r, q_timestamp = now\<rparr>]\<rparr>
            else la)"
  by (simp add: handleRepairComplete_def Let_def)

text \<open>The branch of \<open>learnFromRepair\<close> for a failed repair of a known pattern, which
  \<open>handleRepairComplete\<close> never takes.\<close>

lemma learnFromRepair_failure_branch:
  assumes "patterns la (gh (symptomsOf d)) = Some p" and "\<not> r_success r"
  shows "failureCount (pl_pattern (fst (learnFromRepair gh cfg la newId now d r))) = failureCount p + 1"
    and "pl_action (fst (learnFromRepair gh cfg la newId now d r)) = ''PATTERN_WEAKENED''"
  using assms by (simp_all add: learnFromRepair_def Let_def)

lemma learn_stores:
  "patterns (snd (learnFromRepair gh cfg la newId now d r))
     = (patterns la)(gh (symptomsOf d) \<mapsto> pl_pattern (fst (learnFromRepair gh cfg la newId now d r)))"
  by (simp add: learnFromRepair_def Let_def split: option.splits)

lemma learn_success_new:
  "r_success r \<Longrightarrow> patterns la (gh (symptomsOf d)) = None \<Longrightarrow>
   failureCount (pl_pattern (fst (learnFromRepair gh cfg la newId now d r))) = 0 \<and>
   successRate (pl_pattern (fst (learnFromRepair gh cfg la newId now d r))) = Finite 1"
  by (simp add: learnFromRepair_def Let_def)

lemma learn_success_known:
  "r_success r \<Longrightarrow> patterns la (gh (symptomsOf d)) = Some p \<Longrightarrow>
   failureCount (pl_pattern (fst (learnFromRepair gh cfg la newId now d r))) = failureCount p \<and>
   successRate (pl_pattern (fst (learnFromRepair gh cfg la newId now d r)))
     = jsdiv (Finite (real (successCount p + 1))) (Finite (real (successCount p + 1 + failureCount p)))"
  by (simp add: learnFromRepair_def Let_def add.assoc)

lemma handle_keeps_counts:
  assumes inv: "\<forall>h p. patterns la h = Some p \<longrightarrow> failureCount p = 0 \<and> successRate p = Finite 1"
  shows "\<forall>h p. patterns (snd (handleRepairComplete gh cfg la newId now alertId d r)) h = Some p \<longrightarrow>
           failureCount p = 0 \<and> successRate p = Finite 1"
proof (cases "l_running la \<and> r_success r")
  case False
  then have "patterns (snd (handleRepairComplete gh cfg la newId now alertId d r)) = patterns la"
    by (auto simp add: handleRepairComplete_def Let_def)
  then show ?thesis using inv by simp
next
  case True
  let ?la1 = "la\<lparr>learningQueue := learningQueue la @
                [\<lparr>q_alertId = alertId, q_diagnosis = d, q_result = r, q_timestamp = now\<rparr>]\<rparr>"
  let ?k = "gh (symptomsOf d)"
  let ?p' = "pl_pattern (fst (learnFromRepair gh cfg ?la1 newId now d r))"
  have h: "snd (handleRepairComplete gh cfg la newId now alertId d r)
             = snd (learnFromRepair gh cfg ?la1 newId now d r)"
    using True by (simp add: handleRepairComplete_def Let_def split: prod.splits)
  have st: "patterns (snd (learnFromRepair gh cfg ?la1 newId now d r)) = (patterns la)(?k \<mapsto> ?p')"
    using learn_stores [of gh cfg ?la1 newId now d r] by simp
  have ok: "failureCount ?p' = 0 \<and> successRate ?p' = Finite 1"
  proof (cases "patterns la ?k")
    case None
    then show ?thesis
      using learn_success_new [of r ?la1 gh d cfg newId now] True by simp
  next
    case (Some p)
    then have z: "failureCount p = 0" using inv by simp
    have "real (successCount p + 1) / real (successCount p + 1) = 1"
      by simp
    then have "jsdiv (Finite (real (successCount p + 1))) (Finite (real (successCount p + 1 + failureCount p)))
        = Finite 1"
      using z by (simp add: round64_one del: of_nat_add of_nat_Suc)
    then show ?thesis
      using learn_success_known [of r ?la1 gh d p cfg newId now] True Some z by simp
  qed
  show ?thesis
    unfolding h st using inv ok by simp
qed

lemma run_keeps_counts:
  "\<forall>h p. patterns la h = Some p \<longrightarrow> failureCount p = 0 \<and> successRate p = Finite 1 \<Longrightarrow>
   \<forall>h p. patterns (snd (learning_run gh cfg la evs)) h = Some p \<longrightarrow>
     failureCount p = 0 \<and> successRate p = Finite 1"
proof (induction evs arbitrary: la)
  case Nil
  then show ?case by simp
next
  case (Cons e es)
  let ?la' = "snd (handleRepairComplete gh cfg la (rc_newId e) (rc_now e) (rc_alertId e)
             (rc_diagnosis e) (rc_result e))"
  have "\<forall>h p. patterns ?la' h = Some p \<longrightarrow> failureCount p = 0 \<and> successRate p = Finite 1"
    by (rule handle_keeps_counts [OF Cons.prems])
  from Cons.IH [OF this]
  have "\<forall>h p. patterns (snd (learning_run gh cfg ?la' es)) h = Some p \<longrightarrow>
     failureCount p = 0 \<and> successRate p = Finite 1" .
  moreover have "snd (learning_run gh cfg la (e # es)) = snd (learning_run gh cfg ?la' es)"
    by (simp split: prod.splits)
  ultimately show ?case by simp
qed

lemma handle_publishes_reinforced:
  "fst (handleRepairComplete gh cfg la newId now alertId d r) = Some ev \<Longrightarrow>
   pl_action ev = ''PATTERN_REINFORCED''"
  by (auto simp add: handleRepairComplete_def learnFromRepair_def Let_def
      split: option.splits prod.splits if_splits)

lemma learning_run_Cons:
  "fst (learning_run gh cfg la (e # es))
     = (case fst (handleRepairComplete gh cfg la (rc_newId e) (rc_now e) (rc_alertId e)
                   (rc_diagnosis e) (rc_result e)) of None \<Rightarrow> [] | Some ev \<Rightarrow> [ev])
       @ fst (learning_run gh cfg (snd (handleRepairComplete gh cfg la (rc_newId e) (rc_now e)
                   (rc_alertId e) (rc_diagnosis e) (rc_result e))) es)"
  by (simp split: prod.splits)

lemma run_publishes_reinforced:
  "\<forall>ev \<in> set (fst (learning_run gh cfg la evs)). pl_action ev = ''PATTERN_REINFORCED''"
proof (induction evs arbitrary: la)
  case Nil
  then show ?case by simp
next
  case (Cons e es)
  show ?case
    unfolding learning_run_Cons
    using Cons.IH handle_publishes_reinforced
    by (auto split: option.splits)
qed

text \<open>
  Claim C3, against the code. A repair-complete event with a failed result changes no
  pattern and publishes nothing: \<open>handleRepairComplete\<close> appends the event to
  \<open>learningQueue\<close> when the agent runs, and that is all; no pattern is loaded or
  created, no \<open>failureCount\<close> is incremented and no \<open>successRate\<close> is recomputed. So in
  every state the agent reaches from its start through repair-complete events, every
  stored pattern has \<open>failureCount = 0\<close> and \<open>successRate = 1\<close>, and every pattern event
  published has the action \<open>PATTERN_REINFORCED\<close>: the failure branch of
  \<open>learnFromRepair\<close> and the action \<open>PATTERN_WEAKENED\<close> are never reached.
\<close>

theorem C3_failed_repair_is_not_learned:
  "(\<not> r_success r \<longrightarrow>
      handleRepairComplete gh cfg la newId now alertId d r =
        (None, if l_running la
               then la\<lparr>learningQueue := learningQueue la @
                      [\<lparr>q_alertId = alertId, q_diagnosis = d, q_result = r, q_timestamp = now\<rparr>]\<rparr>
               else la)) \<and>
   (\<forall>h p. patterns (snd (learning_run gh cfg startedLearningAgent evs)) h = Some p \<longrightarrow>
      failureCount p = 0 \<and> successRate p = Finite 1) \<and>
   (\<forall>ev \<in> set (fst (learning_run gh cfg startedLearningAgent evs)). pl_action ev = ''PATTERN_REINFORCED'')"
proof (intro conjI)
  show "\<not> r_success r \<longrightarrow>
      handleRepairComplete gh cfg la newId now alertId d r =
        (None, if l_running la
               then la\<lparr>learningQueue := learningQueue la @
                      [\<lparr>q_alertId = alertId, q_diagnosis = d, q_result = r, q_timestamp = now\<rparr>]\<rparr>
               else la)"
    using handle_failed by blast
  show "\<forall>h p. patterns (snd (learning_run gh cfg startedLearningAgent evs)) h = Some p \<longrightarrow>
      failureCount p = 0 \<and> successRate p = Finite 1"
    by (rule run_keeps_counts) (simp add: startedLearningAgent_def newLearningAgent_def)
  show "\<forall>ev \<in> set (fst (learning_run gh cfg startedLearningAgent evs)). pl_action ev = ''PATTERN_REINFORCED''"
    by (rule run_publishes_reinforced)
qed

lemmas learning_simps = handleRepairComplete_def learnFromRepair_def symptomsOf_def plain_hash_def
  db_diagnosis_def repair_succeeded_def repair_failed_def slow_database_repairs_def
  startedLearningAgent_def newLearningAgent_def str_or_def fixTimeOf_def Let_def

theorem C3_failed_repair_is_not_learned_witness:
  "\<not> r_success repair_failed \<and>
   fst (handleRepairComplete plain_hash defaultLearningConfig
      (snd (learning_run plain_hash defaultLearningConfig startedLearningAgent (take 1 slow_database_repairs)))
      ''p2'' 2000 ''a2'' db_diagnosis repair_failed) = None \<and>
   patterns (snd (handleRepairComplete plain_hash defaultLearningConfig
      (snd (learning_run plain_hash defaultLearningConfig startedLearningAgent (take 1 slow_database_repairs)))
      ''p2'' 2000 ''a2'' db_diagnosis repair_failed))
     = patterns (snd (learning_run plain_hash defaultLearningConfig startedLearningAgent
         (take 1 slow_database_repairs))) \<and>
   map_option successCount (patterns (snd (learning_run plain_hash defaultLearningConfig
      startedLearningAgent slow_database_repairs)) ''unknown|unknown|DATABASE_INDEX'') = Some 1 \<and>
   map_option failureCount (patterns (snd (learning_run plain_hash defaultLearningConfig
      startedLearningAgent slow_database_repairs)) ''unknown|unknown|DATABASE_INDEX'') = Some 0 \<and>
   map_option successRate (patterns (snd (learning_run plain_hash defaultLearningConfig
      startedLearningAgent slow_database_repairs)) ''unknown|unknown|DATABASE_INDEX'') = Some (Finite 1) \<and>
   map pl_action (fst (learning_run plain_hash defaultLearningConfig
      startedLearningAgent slow_database_repairs)) = [''PATTERN_REINFORCED''] \<and>
   length (learningQueue (snd (learning_run plain_hash defaultLearningConfig
      startedLearningAgent slow_database_repairs))) = 2"
proof -
  let ?la1 = "snd (learning_run plain_hash defaultLearningConfig startedLearningAgent
                (take 1 slow_database_repairs))"
  let ?la2 = "snd (learning_run plain_hash defaultLearningConfig startedLearningAgent slow_database_repairs)"
  have failed: "\<not> r_success repair_failed"
    by (simp add: repair_failed_def)
  have step: "handleRepairComplete plain_hash defaultLearningConfig ?la1 ''p2'' 2000 ''a2'' db_diagnosis repair_failed
      = (None, if l_running ?la1
               then ?la1\<lparr>learningQueue := learningQueue ?la1 @
                      [\<lparr>q_alertId = ''a2'', q_diagnosis = db_diagnosis, q_result = repair_failed,
                        q_timestamp = 2000\<rparr>]\<rparr>
               else ?la1)"
    using C3_failed_repair_is_not_learned
      [of repair_failed plain_hash defaultLearningConfig ?la1 "''p2''" 2000 "''a2''" db_diagnosis] failed
    by blast
  have stored: "map_option successCount (patterns ?la2 ''unknown|unknown|DATABASE_INDEX'') = Some 1"
    by (simp add: learning_simps)
  then obtain p where p: "patterns ?la2 ''unknown|unknown|DATABASE_INDEX'' = Some p" "successCount p = 1"
    by auto
  have counts: "failureCount p = 0 \<and> successRate p = Finite 1"
    using C3_failed_repair_is_not_learned
      [of repair_failed plain_hash defaultLearningConfig ?la1 "''p2''" 2000 "''a2''" db_diagnosis
          slow_database_repairs] p(1)
    by blast
  have acts: "map pl_action (fst (learning_run plain_hash defaultLearningConfig
      startedLearningAgent slow_database_repairs)) = [''PATTERN_REINFORCED'']"
    by (simp add: learning_simps)
  have queue: "length (learningQueue ?la2) = 2"
    by (simp add: learning_simps)
  show ?thesis
    using failed step p counts acts queue by simp
qed

subsection \<open>Metrics Store\<close>

lemma lastn_rev: "lastn n xs = rev (take n (rev xs))"
  by (simp add: lastn_def take_rev)

lemma lastn_all: "length xs \<le> n \<Longrightarrow> lastn n xs = xs"
  by (simp add: lastn_def)

lemma lastn_snoc_tl:
  assumes "length xs \<le> c" "0 < c"
  shows "(if length (xs @ [x]) > c then tl (xs @ [x]) else xs @ [x]) = lastn c (xs @ [x])"
proof (cases "length xs = c")
  case True
  then have ne: "xs \<noteq> []" using assms(2) by auto
  have "lastn c (xs @ [x]) = drop 1 (xs @ [x])"
    using True by (simp add: lastn_def)
  also have "\<dots> = tl (xs @ [x])" using ne by (cases xs) (simp_all add: drop_Suc)
  finally show ?thesis using True by simp
next
  case False
  then have "length (xs @ [x]) \<le> c" using assms(1) by simp
  then show ?thesis using lastn_all [of "xs @ [x]" c] by simp
qed

lemma lastn_lastn_append: "lastn c (lastn c xs @ ys) = lastn c (xs @ ys)"
  by (simp add: lastn_rev)

lemma record_retained:
  "retained (snd (record_metric ms i t name v opts)) name =
     (let xs = retained ms name @ [mkMetric i t name v opts]
      in if length xs > maxInMemoryPoints ms then tl xs else xs)"
  by (simp add: record_metric_def retained_def Let_def)

lemma record_cap: "maxInMemoryPoints (snd (record_metric ms i t name v opts)) = maxInMemoryPoints ms"
  by (simp add: record_metric_def Let_def)

lemma length_lastn: "length (lastn c xs) \<le> c"
  by (simp add: lastn_def)

lemma record_all_retained:
  "0 < maxInMemoryPoints ms \<Longrightarrow> length (retained ms name) \<le> maxInMemoryPoints ms \<Longrightarrow>
   retained (record_all ms name ss) name
     = lastn (maxInMemoryPoints ms) (retained ms name @ map (metricOf name) ss)"
proof (induction ss arbitrary: ms)
  case Nil
  then show ?case by (simp add: lastn_def)
next
  case (Cons s ss)
  let ?ms' = "snd (record_metric ms (sm_id s) (sm_time s) name (sm_value s) (sm_opts s))"
  let ?c = "maxInMemoryPoints ms"
  have r: "retained ?ms' name = lastn ?c (retained ms name @ [metricOf name s])"
    using lastn_snoc_tl [OF Cons.prems(2) Cons.prems(1)]
    by (simp add: record_retained metricOf_def Let_def)
  have c: "maxInMemoryPoints ?ms' = ?c" by (rule record_cap)
  have "retained (record_all ?ms' name ss) name
          = lastn ?c (retained ?ms' name @ map (metricOf name) ss)"
    using Cons.IH [of ?ms'] Cons.prems(1) by (simp add: c r length_lastn)
  also have "\<dots> = lastn ?c ((retained ms name @ [metricOf name s]) @ map (metricOf name) ss)"
    unfolding r by (rule lastn_lastn_append)
  finally show ?case by simp
qed

lemma get_limit:
  "0 < l \<Longrightarrow> get ms name \<lparr>q_startTime = None, q_endTime = None, q_limit = Some l\<rparr>
     = lastn (nat l) (retained ms name)"
  by (simp add: get_def slice_neg_def lastn_def Let_def)

lemma get_default: "get ms name defaultQuery = lastn 100 (retained ms name)"
  by (simp add: get_def slice_neg_def lastn_def defaultQuery_def Let_def)

lemma lastn_lastn: "lastn a (lastn b xs) = lastn (min a b) xs"
  by (simp add: lastn_rev min.commute)

lemma get_record_all:
  "0 < maxInMemoryPoints ms \<Longrightarrow> length (retained ms name) \<le> maxInMemoryPoints ms \<Longrightarrow> 0 < l \<Longrightarrow>
   get (record_all ms name ss) name \<lparr>q_startTime = None, q_endTime = None, q_limit = Some l\<rparr>
     = lastn (min (nat l) (maxInMemoryPoints ms)) (retained ms name @ map (metricOf name) ss)"
  by (simp add: get_limit record_all_retained lastn_lastn)

lemma in_lastn:
  "length ys < n \<Longrightarrow> x \<in> set (lastn n (xs @ x # ys))"
  by (simp add: lastn_def)

lemma getStats_empty: "get ms name opts = [] \<Longrightarrow> getStats ms name opts = None"
  by (simp add: getStats_def)

lemma get_no_samples: "retained ms name = [] \<Longrightarrow> get ms name opts = []"
  by (simp add: get_def slice_neg_def Let_def split: option.splits)


text \<open>
  Claim C8, as the code has it. On a store whose cap is positive, a query without time
  bounds and with a positive limit returns the newest samples of the name, as many as
  the smaller of the limit and the cap allows (the limit defaults to 100). So a recorded
  sample comes back, with the name, value and tags it was recorded with, as long as
  fewer samples than that were recorded under its name after it. \<open>getStats\<close> on a name
  with no retained samples is \<open>null\<close>.
\<close>

theorem C8_record_query_roundtrip:
  assumes "0 < maxInMemoryPoints ms" and "length (retained ms name) \<le> maxInMemoryPoints ms"
    and "0 < l"
  shows "get (record_all ms name ss) name \<lparr>q_startTime = None, q_endTime = None, q_limit = Some l\<rparr>
           = lastn (min (nat l) (maxInMemoryPoints ms)) (retained ms name @ map (metricOf name) ss) \<and>
         (\<forall>s more. ss = s # more \<and> length more < min (nat l) (maxInMemoryPoints ms) \<longrightarrow>
            metricOf name s \<in> set (get (record_all ms name ss) name
               \<lparr>q_startTime = None, q_endTime = None, q_limit = Some l\<rparr>)) \<and>
         (\<forall>s. m_name (metricOf name s) = name \<and> m_value (metricOf name s) = sm_value s \<and>
            m_tags (metricOf name s) = (case ro_tags (sm_opts s) of None \<Rightarrow> [] | Some t \<Rightarrow> t)) \<and>
         (\<forall>store n opts. retained store n = [] \<longrightarrow> getStats store n opts = None)"
proof (intro conjI)
  let ?q = "\<lparr>q_startTime = None, q_endTime = None, q_limit = Some l\<rparr>"
  show g: "get (record_all ms name ss) name ?q
           = lastn (min (nat l) (maxInMemoryPoints ms)) (retained ms name @ map (metricOf name) ss)"
    by (rule get_record_all [OF assms])
  show "\<forall>s more. ss = s # more \<and> length more < min (nat l) (maxInMemoryPoints ms) \<longrightarrow>
            metricOf name s \<in> set (get (record_all ms name ss) name ?q)"
  proof (intro allI impI)
    fix s more
    assume h: "ss = s # more \<and> length more < min (nat l) (maxInMemoryPoints ms)"
    then have "metricOf name s \<in> set (lastn (min (nat l) (maxInMemoryPoints ms))
        (retained ms name @ metricOf name s # map (metricOf name) more))"
      using in_lastn [of "map (metricOf name) more"] by simp
    then show "metricOf name s \<in> set (get (record_all ms name ss) name ?q)"
      using g h by simp
  qed
  show "\<forall>s. m_name (metricOf name s) = name \<and> m_value (metricOf name s) = sm_value s \<and>
            m_tags (metricOf name s) = (case ro_tags (sm_opts s) of None \<Rightarrow> [] | Some t \<Rightarrow> t)"
    by (simp add: metricOf_def mkMetric_def)
  show "\<forall>store n opts. retained store n = [] \<longrightarrow> getStats store n opts = None"
    by (simp add: getStats_empty get_no_samples)
qed

lemmas metrics_simps = record_metric_def retained_def mkMetric_def metricOf_def get_def slice_neg_def
  getStats_def newMetricsStore_def defaultQuery_def nth_sample_def cpu_options_def Let_def

theorem C8_record_query_roundtrip_witness:
  "map m_value (get (record_all newMetricsStore ''cpu_usage'' [nth_sample 0, nth_sample 1]) ''cpu_usage''
      \<lparr>q_startTime = None, q_endTime = None, q_limit = Some 100\<rparr>) = [0, 1] \<and>
   map m_tags (get (record_all newMetricsStore ''cpu_usage'' [nth_sample 0, nth_sample 1]) ''cpu_usage''
      \<lparr>q_startTime = None, q_endTime = None, q_limit = Some 100\<rparr>)
     = [[(''host'', ''web-1'')], [(''host'', ''web-1'')]] \<and>
   getStats newMetricsStore ''cpu_usage'' defaultQuery = None"
  using C8_record_query_roundtrip [of newMetricsStore "''cpu_usage''" 100 "[nth_sample 0, nth_sample 1]"]
  by (simp add: metrics_simps)

text \<open>
  Against C8 as stated (a recorded sample is returned until the cap evicts it): after
  101 samples under one name, on a store that retains up to 10000, a query with the
  default options does not return the first sample, which is still retained.
\<close>

theorem C8_default_limit_hides_retained_sample:
  "\<not> metricOf ''cpu_usage'' (nth_sample 0) \<in> set (get (record_all newMetricsStore ''cpu_usage''
        (map nth_sample [0..<101])) ''cpu_usage'' defaultQuery) \<and>
   length (retained (record_all newMetricsStore ''cpu_usage'' (map nth_sample [0..<101])) ''cpu_usage'') = 101"
proof -
  have r: "retained (record_all newMetricsStore ''cpu_usage'' (map nth_sample [0..<101])) ''cpu_usage''
        = map (metricOf ''cpu_usage'') (map nth_sample [0..<101])"
    using record_all_retained [of newMetricsStore "''cpu_usage''" "map nth_sample [0..<101]"]
    by (simp add: newMetricsStore_def retained_def lastn_def)
  have "get (record_all newMetricsStore ''cpu_usage'' (map nth_sample [0..<101])) ''cpu_usage'' defaultQuery
        = map (metricOf ''cpu_usage'') (map nth_sample [1..<101])"
    by (simp add: get_default r lastn_def drop_map)
  then show ?thesis
    using r by (auto simp add: metricOf_def mkMetric_def nth_sample_def)
qed

subsection \<open>Security Agent\<close>








lemma list_ex_append_l: "list_ex P xs \<Longrightarrow> list_ex P (xs @ ys)"
  by (auto simp add: list_ex_iff)


























end
